theory Spec2Isabelle
  imports Main
begin

section \<open>Text helpers of the host language\<close>

text \<open>
  Source text is modelled as \<^typ>\<open>string\<close>, on the code points that a
  \<^typ>\<open>char\<close> can hold; raw file content is a list of bytes, and a
  \<^typ>\<open>char\<close> is a byte.  The helpers below are the built-in string methods
  that \<^verbatim>\<open>analysis.py\<close> calls: \<^verbatim>\<open>str.find\<close>, \<^verbatim>\<open>str.strip\<close>,
  \<^verbatim>\<open>str.rstrip(chars)\<close>, \<^verbatim>\<open>str.endswith\<close>, \<^verbatim>\<open>str.lower\<close> and
  \<^verbatim>\<open>str.islower\<close>.
\<close>

type_synonym byte = char

abbreviation LF :: char where "LF \<equiv> CHR 0x0A"
abbreviation CR :: char where "CR \<equiv> CHR 0x0D"
abbreviation TAB :: char where "TAB \<equiv> CHR 0x09"
abbreviation FF :: char where "FF \<equiv> CHR 0x0C"

text \<open>\<^verbatim>\<open>s.find(c)\<close>: the index of the first occurrence, or \<open>-1\<close>.\<close>

fun find_char :: "char \<Rightarrow> string \<Rightarrow> int" where
  "find_char c [] = -1"
| "find_char c (x # xs) =
     (if x = c then 0
      else (let r = find_char c xs in if r = -1 then -1 else r + 1))"

text \<open>
  The characters for which \<^verbatim>\<open>str.isspace\<close> holds, on the code points a
  \<^typ>\<open>char\<close> can hold: U+0009..U+000D, U+001C..U+0020, U+0085 and U+00A0.
\<close>

definition py_isspace :: "char \<Rightarrow> bool" where
  "py_isspace c =
     (let n = (of_char c :: nat)
      in (9 \<le> n \<and> n \<le> 13) \<or> (28 \<le> n \<and> n \<le> 32) \<or> n = 133 \<or> n = 160)"

text \<open>\<^verbatim>\<open>s.rstrip(chars)\<close> removes the trailing characters that occur in \<open>chars\<close>.\<close>

definition rstrip :: "string \<Rightarrow> string \<Rightarrow> string" where
  "rstrip chars s = rev (dropWhile (\<lambda>c. c \<in> set chars) (rev s))"

text \<open>\<^verbatim>\<open>s.strip()\<close> removes leading and trailing whitespace.\<close>

definition strip :: "string \<Rightarrow> string" where
  "strip s = rev (dropWhile py_isspace (rev (dropWhile py_isspace s)))"

text \<open>\<^verbatim>\<open>s.endswith('\n')\<close>.\<close>

definition endswith_nl :: "string \<Rightarrow> bool" where
  "endswith_nl s = (s \<noteq> [] \<and> last s = LF)"

text \<open>
  Letter case on the code points a \<^typ>\<open>char\<close> can hold: the upper-case letters
  are A..Z, U+00C0..U+00D6 and U+00D8..U+00DE; the lower-case ones are a..z,
  U+00AA, U+00B5, U+00BA, U+00DF..U+00F6 and U+00F8..U+00FF.
\<close>

definition is_upper :: "char \<Rightarrow> bool" where
  "is_upper c =
     (let n = (of_char c :: nat)
      in (65 \<le> n \<and> n \<le> 90) \<or> (192 \<le> n \<and> n \<le> 214) \<or> (216 \<le> n \<and> n \<le> 222))"

definition is_lower :: "char \<Rightarrow> bool" where
  "is_lower c =
     (let n = (of_char c :: nat)
      in (97 \<le> n \<and> n \<le> 122) \<or> n = 170 \<or> n = 181 \<or> n = 186
         \<or> (223 \<le> n \<and> n \<le> 246) \<or> (248 \<le> n \<and> n \<le> 255))"

definition lower_char :: "char \<Rightarrow> char" where
  "lower_char c = (if is_upper c then char_of ((of_char c :: nat) + 32) else c)"

definition lower :: "string \<Rightarrow> string" where
  "lower s = map lower_char s"

text \<open>\<^verbatim>\<open>s.islower()\<close>: at least one cased character, and no upper-case one.\<close>

definition islower :: "string \<Rightarrow> bool" where
  "islower s = (list_ex is_lower s \<and> \<not> list_ex is_upper s)"

section \<open>Tokens\<close>

text \<open>
  A token type of the lexer library is a path below the root type, and
  \<^verbatim>\<open>t in parent\<close> holds when \<open>parent\<close> is a prefix of \<open>t\<close>:
  \<^verbatim>\<open>token.Comment\<close> is \<^verbatim>\<open>Token.Comment\<close> and \<^verbatim>\<open>token.String\<close> is
  \<^verbatim>\<open>Token.Literal.String\<close>.
\<close>

type_synonym token_type = "string list"
type_synonym token = "token_type \<times> string"

definition Comment :: token_type where
  "Comment = [''Comment'']"

definition String :: token_type where
  "String = [''Literal'', ''String'']"

definition type_in :: "token_type \<Rightarrow> token_type \<Rightarrow> bool" where
  "type_in t parent = (take (length parent) t = parent)"

section \<open>Language configuration\<close>

text \<open>
  The exceptions that leave the functions of the module.  An \<^verbatim>\<open>AssertionError\<close>
  carries the message of its \<^verbatim>\<open>assert\<close> statement, empty when there is none.
\<close>

datatype error = OSError | LookupError | AssertionError string

definition LANGUAGE_TO_WHITE_WORDS_MAP :: "(string \<times> string list) list" where
  "LANGUAGE_TO_WHITE_WORDS_MAP =
     [(''python'', [''pass'']), (''sql'', [''begin'', ''end''])]"

definition white_characters :: "string \<Rightarrow> error + string" where
  "white_characters language_id =
     (if islower language_id then Inr ''()[]{};'' else Inl (AssertionError []))"

definition white_code_words :: "string \<Rightarrow> error + string list" where
  "white_code_words language_id =
     (if islower language_id
      then Inr (case map_of LANGUAGE_TO_WHITE_WORDS_MAP language_id of
                  Some ws \<Rightarrow> ws | None \<Rightarrow> [])
      else Inl (AssertionError []))"

section \<open>Line delineator\<close>

function delined_text :: "token_type \<Rightarrow> string \<Rightarrow> token list" where
  "delined_text token_type token_text =
     (let newline_index = find_char LF token_text
      in if newline_index \<noteq> -1
         then (token_type, take (nat (newline_index + 1)) token_text)
              # delined_text token_type (drop (nat (newline_index + 1)) token_text)
         else if token_text \<noteq> [] then [(token_type, token_text)] else [])"
  by pat_completeness auto
termination
proof (relation "measure (\<lambda>(ty, tx). length tx)")
  show "wf (measure (\<lambda>(ty, tx). length tx))" by simp
next
  fix token_type :: token_type and token_text :: string and x :: int
  assume x: "x = find_char LF token_text" and ne: "x \<noteq> -1"
  have "find_char c s = -1 \<or> (0 \<le> find_char c s \<and> find_char c s < int (length s))"
    for c s
    by (induction s) (auto simp: Let_def)
  from this [of LF token_text] x ne
  have "0 \<le> x \<and> x < int (length token_text)" by auto
  then show "((token_type, drop (nat (x + 1)) token_text), (token_type, token_text))
             \<in> measure (\<lambda>(ty, tx). length tx)"
    by auto
qed

declare delined_text.simps [simp del]

fun delined_tokens :: "token list \<Rightarrow> token list" where
  "delined_tokens [] = []"
| "delined_tokens ((token_type, token_text) # tokens) =
     delined_text token_type token_text @ delined_tokens tokens"

section \<open>Documentation reclassifier\<close>

text \<open>
  One iteration of the loop of \<^verbatim>\<open>_pythonized_comments\<close>: from the flag
  \<^verbatim>\<open>is_after_colon\<close> and a token to the new flag and the token yielded.
\<close>

definition pythonized_step :: "bool \<Rightarrow> token \<Rightarrow> bool \<times> token" where
  "pythonized_step is_after_colon tok =
     (case tok of (token_type, token_text) \<Rightarrow>
        if is_after_colon \<and> type_in token_type String
        then (is_after_colon, (Comment, token_text))
        else if token_text = '':''
        then (True, (token_type, token_text))
        else if \<not> type_in token_type Comment
        then (let is_whitespace =
                    (length (rstrip [CHR '' '', FF, LF, CR, TAB] token_text) = 0)
              in if \<not> is_whitespace
                 then (False, (token_type, token_text))
                 else (is_after_colon, (token_type, token_text)))
        else (is_after_colon, (token_type, token_text)))"

fun pythonized_loop :: "bool \<Rightarrow> token list \<Rightarrow> token list" where
  "pythonized_loop is_after_colon [] = []"
| "pythonized_loop is_after_colon (tok # tokens) =
     (case pythonized_step is_after_colon tok of
        (is_after_colon', tok') \<Rightarrow> tok' # pythonized_loop is_after_colon' tokens)"

definition pythonized_comments :: "token list \<Rightarrow> token list" where
  "pythonized_comments tokens = pythonized_loop True tokens"

section \<open>Line classifier\<close>

text \<open>
  The lexer is an object of the lexer library: its \<^verbatim>\<open>name\<close> and its
  \<^verbatim>\<open>get_tokens\<close> are all that the analysis uses.
\<close>

record lexer =
  name :: string
  get_tokens :: "string \<Rightarrow> token list"

text \<open>The marks of a line are one-character strings: c, d, e and s.\<close>

definition add_marks :: "string \<Rightarrow> string list \<Rightarrow> char set \<Rightarrow> token \<Rightarrow> char set" where
  "add_marks white_text white_words line_marks tok =
     (case tok of (token_type, token_text) \<Rightarrow>
        if type_in token_type Comment then insert (CHR ''d'') line_marks
        else if type_in token_type String then insert (CHR ''s'') line_marks
        else (let is_white_text =
                    (strip token_text \<in> set white_words
                     \<or> rstrip white_text token_text = [])
              in if \<not> is_white_text then insert (CHR ''c'') line_marks
                 else line_marks))"

fun line_parts_loop ::
  "string \<Rightarrow> string list \<Rightarrow> char set \<Rightarrow> token list \<Rightarrow> char set list" where
  "line_parts_loop white_text white_words line_marks [] =
     (if line_marks \<noteq> {} then [line_marks] else [])"
| "line_parts_loop white_text white_words line_marks (tok # tokens) =
     (let line_marks' = add_marks white_text white_words line_marks tok
      in if endswith_nl (snd tok)
         then line_marks' # line_parts_loop white_text white_words {} tokens
         else line_parts_loop white_text white_words line_marks' tokens)"

definition line_parts :: "lexer \<Rightarrow> string \<Rightarrow> error + char set list" where
  "line_parts lexer text =
     (let tokens = delined_tokens (get_tokens lexer text);
          tokens = (if name lexer = ''Python'' then pythonized_comments tokens
                    else tokens);
          language_id = lower (name lexer)
      in case white_characters language_id of
           Inl e \<Rightarrow> Inl e
         | Inr white_chars \<Rightarrow>
             (case white_code_words language_id of
                Inl e \<Rightarrow> Inl e
              | Inr white_words \<Rightarrow>
                  Inr (line_parts_loop ([CHR '' '', FF, LF, CR, TAB] @ white_chars)
                         white_words {} tokens)))"

section \<open>Counting lines\<close>

record SourceAnalysis =
  path :: string
  language :: "string option"
  group :: string
  code :: int
  documentation :: int
  empty :: int
  string :: int

text \<open>
  The inner loop of \<^verbatim>\<open>source_analysis\<close> walks the marks d, s, c in this
  order and keeps the last one that the line has; the default is e.
\<close>

definition mark_to_increment :: "char set \<Rightarrow> char" where
  "mark_to_increment marks =
     fold (\<lambda>mark_to_check m. if mark_to_check \<in> marks then mark_to_check else m)
       [CHR ''d'', CHR ''s'', CHR ''c''] (CHR ''e'')"

fun count_lines :: "(char \<Rightarrow> int) \<Rightarrow> char set list \<Rightarrow> (char \<Rightarrow> int)" where
  "count_lines mark_to_count_map [] = mark_to_count_map"
| "count_lines mark_to_count_map (marks # rest) =
     (let m = mark_to_increment marks
      in count_lines (mark_to_count_map (m := mark_to_count_map m + 1)) rest)"

section \<open>Encoding detector\<close>

subsection \<open>The outside world\<close>

text \<open>
  What reading a file as text can give: the text, a \<^verbatim>\<open>UnicodeDecodeError\<close>, or a
  \<^verbatim>\<open>LookupError\<close> for an encoding name that the codec registry does not know.
\<close>

datatype read_outcome = Text string | DecodeFailure | UnknownEncoding

text \<open>
  The statistical detector of the optional \<^verbatim>\<open>chardet\<close> package:
  \<open>reset\<close> is the state that \<^verbatim>\<open>reset()\<close> leaves, \<open>feed\<close> the state after
  \<^verbatim>\<open>feed(line)\<close>, \<open>is_done\<close> the attribute \<^verbatim>\<open>done\<close> and \<open>result_encoding\<close> the
  entry \<^verbatim>\<open>result['encoding']\<close>.
\<close>

record 'd detector =
  reset :: 'd
  feed :: "'d \<Rightarrow> byte list \<Rightarrow> 'd"
  is_done :: "'d \<Rightarrow> bool"
  result_encoding :: "'d \<Rightarrow> string option"

text \<open>
  The collaborators of the analysis, taken as parameters:
  \<^item> \<open>get_lexer_for_filename\<close>: the lexer library's lookup (\<open>None\<close> stands for
    \<^verbatim>\<open>ClassNotFound\<close>);
  \<^item> \<open>file_bytes\<close>: the content of each file that can be opened (\<open>None\<close> stands
    for an \<^verbatim>\<open>OSError\<close> of \<^verbatim>\<open>open\<close>);
  \<^item> \<open>read_text\<close>: decoding a file's content with a named encoding, the whole
    of it (\<open>None\<close>) or up to a number of characters, as
    \<^verbatim>\<open>open(path, 'r', encoding=e).read(n)\<close> does;
  \<^item> \<open>detector\<close>: the module's \<^verbatim>\<open>_detector\<close>, \<open>None\<close> when the import of
    \<^verbatim>\<open>chardet\<close> failed.
\<close>

record 'd env =
  get_lexer_for_filename :: "string \<Rightarrow> lexer option"
  file_bytes :: "string \<Rightarrow> byte list option"
  read_text :: "string \<Rightarrow> nat option \<Rightarrow> byte list \<Rightarrow> read_outcome"
  detector :: "'d detector option"

definition has_chardet :: "'d env \<Rightarrow> bool" where
  "has_chardet e = (detector e \<noteq> None)"

subsection \<open>Byte order marks\<close>

definition BOM_UTF8 :: "byte list" where
  "BOM_UTF8 = [CHR 0xEF, CHR 0xBB, CHR 0xBF]"

definition BOM_UTF32_LE :: "byte list" where
  "BOM_UTF32_LE = [CHR 0xFF, CHR 0xFE, CHR 0x00, CHR 0x00]"

definition BOM_UTF16_BE :: "byte list" where
  "BOM_UTF16_BE = [CHR 0xFE, CHR 0xFF]"

definition BOM_UTF16_LE :: "byte list" where
  "BOM_UTF16_LE = [CHR 0xFF, CHR 0xFE]"

definition BOM_UTF32_BE :: "byte list" where
  "BOM_UTF32_BE = [CHR 0x00, CHR 0x00, CHR 0xFE, CHR 0xFF]"

definition BOM_TO_ENCODING_MAP :: "(byte list \<times> string) list" where
  "BOM_TO_ENCODING_MAP =
     [(BOM_UTF8, ''utf-8-sig''),
      (BOM_UTF32_LE, ''utf-32-le''),
      (BOM_UTF16_BE, ''utf-16-be''),
      (BOM_UTF16_LE, ''utf-16-le''),
      (BOM_UTF32_BE, ''utf-32-be'')]"

text \<open>The loop over the ordered map, left at the first signature that matches.\<close>

fun bom_encoding :: "(byte list \<times> string) list \<Rightarrow> byte list \<Rightarrow> string option" where
  "bom_encoding [] heading = None"
| "bom_encoding ((bom, encoding) # items) heading =
     (if take (length bom) heading = bom then Some encoding
      else bom_encoding items heading)"

subsection \<open>The heading as text\<close>

text \<open>
  \<^verbatim>\<open>heading.decode('ascii', errors='replace')\<close> keeps the bytes below 128 and puts
  U+FFFD for every other byte.  A \<^typ>\<open>char\<close> cannot hold U+FFFD;
  \<open>REPLACEMENT\<close> stands for it.  Like U+FFFD it is no letter, digit,
  underscore or whitespace, and it occurs in none of the patterns below.
\<close>

definition REPLACEMENT :: char where
  "REPLACEMENT = CHR 0xA6"

definition decode_ascii_replace :: "byte list \<Rightarrow> string" where
  "decode_ascii_replace bs =
     map (\<lambda>b. if (of_char b :: nat) < 128 then b else REPLACEMENT) bs"

text \<open>\<^verbatim>\<open>s.replace('\r\n', '\n')\<close> and \<^verbatim>\<open>s.replace('\r', '\n')\<close>.\<close>

fun replace_crlf :: "string \<Rightarrow> string" where
  "replace_crlf (a # b # s) =
     (if a = CR \<and> b = LF then LF # replace_crlf s else a # replace_crlf (b # s))"
| "replace_crlf s = s"

definition replace_cr :: "string \<Rightarrow> string" where
  "replace_cr s = map (\<lambda>c. if c = CR then LF else c) s"

text \<open>\<^verbatim>\<open>s.split('\n')\<close> and \<^verbatim>\<open>'\n'.join(lines)\<close>.\<close>

fun split_nl :: "string \<Rightarrow> string list" where
  "split_nl [] = [[]]"
| "split_nl (c # s) =
     (if c = LF then [] # split_nl s
      else (case split_nl s of l # ls \<Rightarrow> (c # l) # ls | [] \<Rightarrow> [[c]]))"

fun join_nl :: "string list \<Rightarrow> string" where
  "join_nl [] = []"
| "join_nl [l] = l"
| "join_nl (l # ls) = l @ LF # join_nl ls"

definition ascii_heading_of :: "byte list \<Rightarrow> string" where
  "ascii_heading_of heading =
     (let ascii_heading = decode_ascii_replace heading;
          ascii_heading = replace_crlf ascii_heading;
          ascii_heading = replace_cr ascii_heading
      in join_nl (take 2 (split_nl ascii_heading)) @ [LF])"

subsection \<open>The two patterns\<close>

definition is_alnum :: "char \<Rightarrow> bool" where
  "is_alnum c =
     (let n = (of_char c :: nat)
      in (48 \<le> n \<and> n \<le> 57) \<or> (65 \<le> n \<and> n \<le> 90) \<or> (97 \<le> n \<and> n \<le> 122))"

text \<open>The class \<^verbatim>\<open>[-_.a-zA-Z0-9]\<close> of both patterns.\<close>

definition is_name_char :: "char \<Rightarrow> bool" where
  "is_name_char c = (is_alnum c \<or> c = CHR ''-'' \<or> c = CHR ''_'' \<or> c = CHR ''.'')"

text \<open>
  The word characters that \<^verbatim>\<open>\b\<close> looks at.  In a heading decoded as above these
  are the letters and digits of ASCII and the underscore.
\<close>

definition is_word_char :: "char \<Rightarrow> bool" where
  "is_word_char c = (is_alnum c \<or> c = CHR ''_'')"

text \<open>
  \<^verbatim>\<open>\b\<close> between the character \<open>c\<close> and what follows it (\<open>None\<close> at the end of
  the text): exactly one of the two is a word character.
\<close>

definition word_boundary :: "char \<Rightarrow> char option \<Rightarrow> bool" where
  "word_boundary c nxt =
     (is_word_char c \<noteq> (case nxt of None \<Rightarrow> False | Some d \<Rightarrow> is_word_char d))"

text \<open>\<open>after_prefix p s\<close> is the rest of \<open>s\<close> behind the literal \<open>p\<close>.\<close>

fun after_prefix :: "string \<Rightarrow> string \<Rightarrow> string option" where
  "after_prefix [] s = Some s"
| "after_prefix (p # ps) [] = None"
| "after_prefix (p # ps) (c # s) = (if p = c then after_prefix ps s else None)"

text \<open>
  The group \<^verbatim>\<open>(?P<encoding>[-_.a-zA-Z0-9]+)\b\<close> on a run of name characters,
  given reversed, and the character behind the run: the greedy \<^verbatim>\<open>+\<close> takes the
  whole run and gives characters back one at a time until \<^verbatim>\<open>\b\<close> holds.
\<close>

fun name_before_boundary :: "string \<Rightarrow> char option \<Rightarrow> string option" where
  "name_before_boundary [] nxt = None"
| "name_before_boundary (c # rev_run) nxt =
     (if word_boundary c nxt then Some (rev (c # rev_run))
      else name_before_boundary rev_run (Some c))"

text \<open>
  \<^verbatim>\<open>coding[:=][ \t]*(?P<encoding>[-_.a-zA-Z0-9]+)\b\<close> at the start of \<open>s\<close>.  The
  characters of \<^verbatim>\<open>[ \t]\<close> are no name characters, so giving back blanks never
  lets the group start earlier.
\<close>

definition coding_at :: "string \<Rightarrow> string option" where
  "coding_at s =
     (case after_prefix ''coding'' s of
        None \<Rightarrow> None
      | Some [] \<Rightarrow> None
      | Some (c # r) \<Rightarrow>
          if c = CHR '':'' \<or> c = CHR ''=''
          then (let r = dropWhile (\<lambda>c. c = CHR '' '' \<or> c = TAB) r;
                    run = takeWhile is_name_char r;
                    behind = dropWhile is_name_char r
                in name_before_boundary (rev run)
                     (case behind of [] \<Rightarrow> None | d # _ \<Rightarrow> Some d))
          else None)"

text \<open>The last position of \<open>s\<close> at which \<open>at\<close> matches.\<close>

fun last_match :: "(string \<Rightarrow> string option) \<Rightarrow> string \<Rightarrow> string option" where
  "last_match at [] = None"
| "last_match at (c # s) =
     (case last_match at s of Some r \<Rightarrow> Some r | None \<Rightarrow> at (c # s))"

text \<open>
  \<^verbatim>\<open>_CODING_MAGIC_REGEX.match(text)\<close>, the group \<^verbatim>\<open>encoding\<close> of the match: the
  pattern is \<^verbatim>\<open>.+coding[:=][ \t]*(?P<encoding>[-_.a-zA-Z0-9]+)\b\<close> with \<^verbatim>\<open>DOTALL\<close>.
  The greedy \<^verbatim>\<open>.+\<close> takes at least one character and as many as it can, so the
  match is at the last position behind the first character.
\<close>

definition CODING_MAGIC_REGEX_match :: "string \<Rightarrow> string option" where
  "CODING_MAGIC_REGEX_match text =
     (case text of [] \<Rightarrow> None | c # s \<Rightarrow> last_match coding_at s)"

fun contains :: "string \<Rightarrow> string \<Rightarrow> bool" where
  "contains p [] = (p = [])"
| "contains p (c # s) = (after_prefix p (c # s) \<noteq> None \<or> contains p s)"

text \<open>\<^verbatim>\<open>encoding="(?P<encoding>[-_.a-zA-Z0-9]+)".*\?>\<close> at the start of \<open>s\<close>.\<close>

definition xml_encoding_at :: "string \<Rightarrow> string option" where
  "xml_encoding_at s =
     (case after_prefix (''encoding='' @ [CHR 0x22]) s of
        None \<Rightarrow> None
      | Some r \<Rightarrow>
          (let run = takeWhile is_name_char r;
               behind = dropWhile is_name_char r
           in case behind of
                [] \<Rightarrow> None
              | d # rest \<Rightarrow>
                  if run \<noteq> [] \<and> d = CHR 0x22 \<and> contains ''?>'' rest
                  then Some run else None))"

text \<open>
  \<^verbatim>\<open>_XML_PROLOG_REGEX.match(line)\<close>, the group \<^verbatim>\<open>encoding\<close> of the match: the
  pattern is \<^verbatim>\<open><\?xml\s+.*encoding="(?P<encoding>[-_.a-zA-Z0-9]+)".*\?>\<close>.  Behind
  \<^verbatim>\<open><?xml\<close> and one whitespace character the greedy \<^verbatim>\<open>.*\<close> puts the attribute at
  the last position where the rest of the pattern matches.
\<close>

definition XML_PROLOG_REGEX_match :: "string \<Rightarrow> string option" where
  "XML_PROLOG_REGEX_match line =
     (case after_prefix ''<?xml'' line of
        None \<Rightarrow> None
      | Some [] \<Rightarrow> None
      | Some (c # r) \<Rightarrow> if py_isspace c then last_match xml_encoding_at r else None)"

subsection \<open>The detector\<close>

text \<open>\<^verbatim>\<open>source_file.readlines()\<close> of a binary file: each line keeps its terminator.\<close>

fun readlines :: "byte list \<Rightarrow> byte list list" where
  "readlines [] = []"
| "readlines (b # bs) =
     (if b = LF then [b] # readlines bs
      else (case readlines bs of [] \<Rightarrow> [[b]] | l # ls \<Rightarrow> (b # l) # ls))"

fun feed_lines :: "'d detector \<Rightarrow> 'd \<Rightarrow> byte list list \<Rightarrow> 'd" where
  "feed_lines det st [] = st"
| "feed_lines det st (line # lines) =
     (let st = feed det st line
      in if is_done det st then st else feed_lines det st lines)"

subsection \<open>\<^verbatim>\<open>encoding_for\<close>\<close>

text \<open>The message of the assertion that guards the detector.\<close>

definition CHARDET_REQUIRED :: string where
  "CHARDET_REQUIRED =
     ''without chardet installed, encoding='' @ [CHR 0x22] @ ''chardet'' @ [CHR 0x22]
     @ '' must be rejected before calling encoding_for()''"

definition encoding_for :: "'d env \<Rightarrow> string \<Rightarrow> string \<Rightarrow> string \<Rightarrow> error + string" where
  "encoding_for e source_path encoding fallback_encoding =
     (if encoding = ''automatic''
      then (case file_bytes e source_path of
              None \<Rightarrow> Inl OSError
            | Some content \<Rightarrow>
                (let heading = take 128 content;
                     result = (if length heading = 0 then Some ''utf-8'' else None);
                     result = (if result = None
                               then bom_encoding BOM_TO_ENCODING_MAP heading
                               else result);
                     result =
                       (if result = None
                        then (let ascii_heading = ascii_heading_of heading
                              in case CODING_MAGIC_REGEX_match ascii_heading of
                                   Some found \<Rightarrow> Some found
                                 | None \<Rightarrow>
                                     (let first_line =
                                            (case split_nl ascii_heading of
                                               l # _ \<Rightarrow> l | [] \<Rightarrow> [])
                                      in XML_PROLOG_REGEX_match first_line))
                        else result)
                 in case result of
                      Some r \<Rightarrow> Inr r
                    | None \<Rightarrow>
                        (case read_text e ''utf-8'' (Some 16384) content of
                           Text t \<Rightarrow> Inr ''utf-8''
                         | DecodeFailure \<Rightarrow> Inr fallback_encoding
                         | UnknownEncoding \<Rightarrow> Inl LookupError)))
      else if encoding = ''chardet''
      then (case detector e of
              None \<Rightarrow> Inl (AssertionError CHARDET_REQUIRED)
            | Some det \<Rightarrow>
                (case file_bytes e source_path of
                   None \<Rightarrow> Inl OSError
                 | Some content \<Rightarrow>
                     (case result_encoding det
                             (feed_lines det (reset det) (readlines content)) of
                        None \<Rightarrow> Inl (AssertionError [])
                      | Some r \<Rightarrow> Inr r)))
      else Inr encoding)"

section \<open>Source analyzer\<close>

definition source_analysis ::
  "'d env \<Rightarrow> string \<Rightarrow> string \<Rightarrow> string \<Rightarrow> string \<Rightarrow> error + SourceAnalysis" where
  "source_analysis e source_path grp encoding fallback_encoding =
     (case get_lexer_for_filename e source_path of
        None \<Rightarrow>
          Inr \<lparr>path = source_path, language = None, group = grp,
               code = 0, documentation = 0, empty = 0, string = 0\<rparr>
      | Some lexer \<Rightarrow>
          (case (if encoding = ''automatic''
                 then encoding_for e source_path encoding fallback_encoding
                 else Inr encoding) of
             Inl err \<Rightarrow> Inl err
           | Inr encoding \<Rightarrow>
               (case (case file_bytes e source_path of
                        None \<Rightarrow> Inr None
                      | Some content \<Rightarrow>
                          (case read_text e encoding None content of
                             Text t \<Rightarrow> Inr (Some t)
                           | DecodeFailure \<Rightarrow> Inr None
                           | UnknownEncoding \<Rightarrow> Inl LookupError)) of
                  Inl err \<Rightarrow> Inl err
                | Inr None \<Rightarrow>
                    Inr \<lparr>path = source_path, language = Some ''error'', group = grp,
                         code = 0, documentation = 0, empty = 0, string = 0\<rparr>
                | Inr (Some text) \<Rightarrow>
                    (case line_parts lexer text of
                       Inl err \<Rightarrow> Inl err
                     | Inr parts \<Rightarrow>
                         (let mark_to_count_map =
                                count_lines (\<lambda>mark. 0) parts
                          in Inr \<lparr>path = source_path,
                                  language = Some (name lexer),
                                  group = grp,
                                  code = mark_to_count_map (CHR ''c''),
                                  documentation = mark_to_count_map (CHR ''d''),
                                  empty = mark_to_count_map (CHR ''e''),
                                  string = mark_to_count_map (CHR ''s'')\<rparr>)))))"

section \<open>Example inputs\<close>

text \<open>Concrete inputs on which the properties below are instantiated.\<close>

definition example_tokens :: "token list" where
  "example_tokens =
     [([''Text''], ''ab'' @ [LF] @ ''cd'' @ [LF]), ([''Name''], ''x''), ([''Text''], [])]"

definition example_get_tokens :: "string \<Rightarrow> token list" where
  "example_get_tokens text =
     (if text = ''x = 1  # one'' @ [LF]
      then [([''Name''], ''x''), ([''Text''], '' ''), ([''Operator''], ''=''),
            ([''Text''], '' ''), ([''Literal'', ''Number''], ''1''), ([''Text''], ''  ''),
            ([''Comment'', ''Single''], ''# one''), ([''Text''], [LF])]
      else if text = ''pass'' @ [LF]
      then [([''Keyword''], ''pass''), ([''Text''], [LF])]
      else if text = ''def f():'' @ [LF] @ ''  '' @ [CHR 0x27] @ ''doc'' @ [CHR 0x27, LF]
                     @ ''  x = '' @ [CHR 0x27] @ ''doc'' @ [CHR 0x27, LF]
      then [([''Keyword''], ''def''), ([''Text''], '' ''), ([''Name'', ''Function''], ''f''),
            ([''Punctuation''], ''(''), ([''Punctuation''], '')''), ([''Punctuation''], '':''),
            ([''Text''], [LF]), ([''Text''], ''  ''),
            ([''Literal'', ''String'', ''Doc''], [CHR 0x27] @ ''doc'' @ [CHR 0x27]),
            ([''Text''], [LF]), ([''Text''], ''  ''), ([''Name''], ''x''), ([''Text''], '' ''),
            ([''Operator''], ''=''), ([''Text''], '' ''),
            ([''Literal'', ''String'', ''Single''], [CHR 0x27] @ ''doc'' @ [CHR 0x27]),
            ([''Text''], [LF])]
      else if text = ''x'' @ [LF] @ ''  '' @ [LF] @ ''  )''
      then [([''Name''], ''x''), ([''Text''], [LF] @ ''  '' @ [LF] @ ''  ''),
            ([''Punctuation''], '')'')]
      else [([''Text''], text)])"

definition example_python :: lexer where
  "example_python = \<lparr>name = ''Python'', get_tokens = example_get_tokens\<rparr>"

definition example_ruby :: lexer where
  "example_ruby = \<lparr>name = ''Ruby'', get_tokens = example_get_tokens\<rparr>"

definition example_read_text :: "string \<Rightarrow> nat option \<Rightarrow> byte list \<Rightarrow> read_outcome" where
  "example_read_text encoding limit content =
     (if encoding \<in> set [''utf-8'', ''ascii'', ''cp1252'', ''latin-1'']
      then (let bs = (case limit of None \<Rightarrow> content | Some n \<Rightarrow> take n content)
            in if list_all (\<lambda>b. (of_char b :: nat) < 128) bs \<or> encoding = ''latin-1''
               then Text bs
               else DecodeFailure)
      else UnknownEncoding)"

definition example_env :: "unit env" where
  "example_env =
     \<lparr>get_lexer_for_filename =
        (\<lambda>p. if p \<in> set [''both.py'', ''pass.py'', ''doc.py'', ''gone.py'', ''bad.py'',
                         ''tail.py'']
             then Some example_python
             else if p = ''pass.rb'' then Some example_ruby
             else None),
      file_bytes =
        (\<lambda>p. if p = ''both.py'' then Some (''x = 1  # one'' @ [LF])
             else if p = ''pass.py'' \<or> p = ''pass.rb'' then Some (''pass'' @ [LF])
             else if p = ''doc.py''
             then Some (''def f():'' @ [LF] @ ''  '' @ [CHR 0x27] @ ''doc'' @ [CHR 0x27, LF]
                        @ ''  x = '' @ [CHR 0x27] @ ''doc'' @ [CHR 0x27, LF])
             else if p = ''tail.py'' then Some (''x'' @ [LF] @ ''  '' @ [LF] @ ''  )'')
             else if p = ''bad.py'' then Some [CHR ''x'', CHR 0xFF, LF]
             else if p = ''notes.txt'' then Some ''hello''
             else if p = ''utf32.txt''
             then Some [CHR 0xFF, CHR 0xFE, CHR 0x00, CHR 0x00, CHR ''A'',
                        CHR 0x00, CHR 0x00, CHR 0x00]
             else if p = ''utf16.txt'' then Some [CHR 0xFF, CHR 0xFE, CHR ''A'', CHR 0x00]
             else if p = ''magic.py''
             then Some (''#!/usr/bin/python'' @ [LF] @ ''# -*- coding: latin-1 -*-'' @ [LF]
                        @ ''x = 1'' @ [LF])
             else if p = ''nomagic.py'' then Some (''coding: latin-1'' @ [LF])
             else if p = ''long.py''
             then Some (replicate 130 (CHR ''#'') @ [LF] @ ''# -*- coding: latin-1 -*-''
                        @ [LF])
             else None),
      read_text = example_read_text,
      detector = None\<rparr>"

section \<open>Configuration of the encoding mode\<close>

text \<open>
  Modelled from the spec: the configuration step of the surrounding tool, which
  selects the encoding mode before any file is analysed, is not part of
  \<^verbatim>\<open>analysis.py\<close>; the module only exports \<^verbatim>\<open>has_chardet\<close> for it and asserts in
  \<^verbatim>\<open>encoding_for\<close> that the step has been taken.  The spec asks that the
  detector-based mode is rejected with a fatal configuration error when no
  detector is available.
\<close>

datatype configuration_error = ConfigurationError

definition configure_encoding :: "'d env \<Rightarrow> string \<Rightarrow> configuration_error + string" where
  "configure_encoding e encoding =
     (if encoding = ''chardet'' \<and> \<not> has_chardet e then Inl ConfigurationError
      else Inr encoding)"

text \<open>
  Modelled from the spec: a run of the surrounding tool, which configures the
  encoding mode first and then calls \<^verbatim>\<open>source_analysis\<close> once for each file.
\<close>

definition analyze_files ::
  "'d env \<Rightarrow> string list \<Rightarrow> string \<Rightarrow> string \<Rightarrow> string
   \<Rightarrow> configuration_error + (error + SourceAnalysis) list" where
  "analyze_files e paths grp encoding fallback_encoding =
     (case configure_encoding e encoding of
        Inl err \<Rightarrow> Inl err
      | Inr enc \<Rightarrow> Inr (map (\<lambda>p. source_analysis e p grp enc fallback_encoding) paths))"

text \<open>A detector that is done after the first line and always answers ascii.\<close>

definition example_detector :: "unit detector" where
  "example_detector =
     \<lparr>reset = (), feed = (\<lambda>st line. ()), is_done = (\<lambda>st. True),
      result_encoding = (\<lambda>st. Some ''ascii'')\<rparr>"

definition example_env_chardet :: "unit env" where
  "example_env_chardet = example_env \<lparr>detector := Some example_detector\<rparr>"

section \<open>The example inputs, evaluated\<close>

lemmas eval_defs =
  add_marks_def type_in_def String_def Comment_def strip_def rstrip_def py_isspace_def
  endswith_nl_def pythonized_comments_def pythonized_step_def delined_text.simps
  mark_to_increment_def

lemma lower_Python: "lower ''Python'' = ''python''"
  by (simp add: lower_def lower_char_def is_upper_def char_of_def bit_Suc_0_iff)

lemma lower_Ruby: "lower ''Ruby'' = ''ruby''"
  by (simp add: lower_def lower_char_def is_upper_def char_of_def bit_Suc_0_iff)

lemma white_python:
  "white_characters ''python'' = Inr ''()[]{};''" "white_code_words ''python'' = Inr [''pass'']"
  by (simp_all add: white_characters_def white_code_words_def islower_def is_lower_def
        is_upper_def LANGUAGE_TO_WHITE_WORDS_MAP_def)

lemma line_parts_python:
  "line_parts example_python text =
     Inr (line_parts_loop ([CHR '' '', FF, LF, CR, TAB] @ ''()[]{};'') [''pass''] {}
            (pythonized_comments (delined_tokens (example_get_tokens text))))"
  by (simp add: line_parts_def example_python_def lower_Python white_python)

lemma example_both: "line_parts example_python (''x = 1  # one'' @ [LF]) = Inr [{CHR ''c'', CHR ''d''}]"
  unfolding line_parts_python by (simp add: example_get_tokens_def eval_defs insert_commute)

lemma example_doc:
  "line_parts example_python
     (''def f():'' @ [LF] @ ''  '' @ [CHR 0x27] @ ''doc'' @ [CHR 0x27, LF]
      @ ''  x = '' @ [CHR 0x27] @ ''doc'' @ [CHR 0x27, LF])
   = Inr [{CHR ''c''}, {CHR ''d''}, {CHR ''c'', CHR ''s''}]"
  unfolding line_parts_python by (simp add: example_get_tokens_def eval_defs insert_commute)

lemma example_env_sel:
  "get_lexer_for_filename example_env ''both.py'' = Some example_python"
  "get_lexer_for_filename example_env ''pass.py'' = Some example_python"
  "get_lexer_for_filename example_env ''doc.py'' = Some example_python"
  "get_lexer_for_filename example_env ''gone.py'' = Some example_python"
  "get_lexer_for_filename example_env ''bad.py'' = Some example_python"
  "get_lexer_for_filename example_env ''pass.rb'' = Some example_ruby"
  "get_lexer_for_filename example_env ''notes.txt'' = None"
  "file_bytes example_env ''both.py'' = Some (''x = 1  # one'' @ [LF])"
  "file_bytes example_env ''pass.py'' = Some (''pass'' @ [LF])"
  "file_bytes example_env ''pass.rb'' = Some (''pass'' @ [LF])"
  "file_bytes example_env ''doc.py'' =
     Some (''def f():'' @ [LF] @ ''  '' @ [CHR 0x27] @ ''doc'' @ [CHR 0x27, LF]
           @ ''  x = '' @ [CHR 0x27] @ ''doc'' @ [CHR 0x27, LF])"
  "file_bytes example_env ''bad.py'' = Some [CHR ''x'', CHR 0xFF, LF]"
  "file_bytes example_env ''gone.py'' = None"
  "get_lexer_for_filename example_env ''tail.py'' = Some example_python"
  "file_bytes example_env ''tail.py'' = Some (''x'' @ [LF] @ ''  '' @ [LF] @ ''  )'')"
  "file_bytes example_env ''utf32.txt'' =
     Some [CHR 0xFF, CHR 0xFE, CHR 0x00, CHR 0x00, CHR ''A'', CHR 0x00, CHR 0x00, CHR 0x00]"
  "file_bytes example_env ''utf16.txt'' = Some [CHR 0xFF, CHR 0xFE, CHR ''A'', CHR 0x00]"
  "file_bytes example_env ''magic.py'' =
     Some (''#!/usr/bin/python'' @ [LF] @ ''# -*- coding: latin-1 -*-'' @ [LF]
           @ ''x = 1'' @ [LF])"
  "file_bytes example_env ''nomagic.py'' = Some (''coding: latin-1'' @ [LF])"
  "file_bytes example_env ''long.py'' =
     Some (replicate 130 (CHR ''#'') @ [LF] @ ''# -*- coding: latin-1 -*-'' @ [LF])"
  "read_text example_env = example_read_text"
  "detector example_env = None"
  by (simp_all add: example_env_def)

lemma example_read_ascii:
  "list_all (\<lambda>b. (of_char b :: nat) < 128) content \<Longrightarrow>
     example_read_text ''utf-8'' None content = Text content"
  by (simp add: example_read_text_def)

lemma example_doc_read:
  "example_read_text ''utf-8'' None
     (''def f():'' @ [LF] @ ''  '' @ [CHR 0x27] @ ''doc'' @ [CHR 0x27, LF]
      @ ''  x = '' @ [CHR 0x27] @ ''doc'' @ [CHR 0x27, LF])
   = Text (''def f():'' @ [LF] @ ''  '' @ [CHR 0x27] @ ''doc'' @ [CHR 0x27, LF]
      @ ''  x = '' @ [CHR 0x27] @ ''doc'' @ [CHR 0x27, LF])"
  by (rule example_read_ascii) simp


section \<open>Properties of the line delineator\<close>

lemma find_char_ge: "-1 \<le> find_char c s"
  by (induction s) (auto simp: Let_def)

lemma find_char_nonneg: "find_char c s \<noteq> -1 \<Longrightarrow> 0 \<le> find_char c s"
  using find_char_ge [of c s] by arith

lemma find_char_none: "find_char c s = -1 \<longleftrightarrow> c \<notin> set s"
proof (induction s)
  case Nil
  show ?case by simp
next
  case (Cons x s)
  from find_char_ge [of c s] have "find_char c s + 1 \<noteq> -1" by arith
  with Cons show ?case by (auto simp: Let_def)
qed

lemma find_char_first:
  "find_char c s \<noteq> -1 \<Longrightarrow>
     nat (find_char c s) < length s \<and> s ! nat (find_char c s) = c
     \<and> c \<notin> set (take (nat (find_char c s)) s)"
proof (induction s)
  case Nil
  then show ?case by simp
next
  case (Cons x s)
  show ?case
  proof (cases "x = c")
    case True
    then show ?thesis by simp
  next
    case False
    with Cons.prems have ne: "find_char c s \<noteq> -1" by (auto simp: Let_def split: if_splits)
    from find_char_nonneg [OF ne] have nn: "0 \<le> find_char c s" .
    from False ne have eq: "find_char c (x # s) = find_char c s + 1" by (simp add: Let_def)
    from nn have n: "nat (find_char c s + 1) = Suc (nat (find_char c s))" by simp
    from Cons.IH [OF ne] False show ?thesis unfolding eq n by simp
  qed
qed

lemma delined_text_props:
  "\<forall>out \<in> set (delined_text ty tx).
      fst out = ty \<and> snd out \<noteq> [] \<and> LF \<notin> set (butlast (snd out))"
proof (induction ty tx rule: delined_text.induct)
  case (1 token_type token_text)
  show ?case
  proof (cases "find_char LF token_text = -1")
    case True
    then have "LF \<notin> set token_text" by (simp add: find_char_none)
    then have "LF \<notin> set (butlast token_text)" by (auto dest: in_set_butlastD)
    with True show ?thesis by (subst delined_text.simps) (simp add: Let_def)
  next
    case False
    let ?i = "nat (find_char LF token_text)"
    from find_char_nonneg [OF False] have n: "nat (find_char LF token_text + 1) = Suc ?i" by simp
    from find_char_first [OF False]
    have lt: "?i < length token_text" and at: "token_text ! ?i = LF"
      and nin: "LF \<notin> set (take ?i token_text)" by auto
    from lt have "take (Suc ?i) token_text = take ?i token_text @ [token_text ! ?i]"
      by (simp add: take_Suc_conv_app_nth)
    then have bl: "butlast (take (Suc ?i) token_text) = take ?i token_text"
      and ne: "take (Suc ?i) token_text \<noteq> []" by auto
    from 1 [OF refl False] have IH:
      "\<forall>out \<in> set (delined_text token_type (drop (Suc ?i) token_text)).
          fst out = token_type \<and> snd out \<noteq> [] \<and> LF \<notin> set (butlast (snd out))"
      unfolding n .
    have unf: "delined_text token_type token_text =
      (token_type, take (Suc ?i) token_text) # delined_text token_type (drop (Suc ?i) token_text)"
      using False n by (subst delined_text.simps) (simp add: Let_def)
    show ?thesis unfolding unf using IH bl ne nin by simp
  qed
qed

lemma delined_text_concat: "concat (map snd (delined_text ty tx)) = tx"
proof (induction ty tx rule: delined_text.induct)
  case (1 token_type token_text)
  show ?case
  proof (cases "find_char LF token_text = -1")
    case True
    then show ?thesis by (subst delined_text.simps) (simp add: Let_def)
  next
    case False
    from 1 [OF refl False] False show ?thesis
      by (subst delined_text.simps) (simp add: Let_def)
  qed
qed

lemma delined_tokens_concat:
  "delined_tokens tokens = concat (map (\<lambda>tok. delined_text (fst tok) (snd tok)) tokens)"
  by (induction tokens) auto

text \<open>
  Claim C9.  For every token sequence, the delineator yields the slices of the
  first token, then those of the second, and so on; every slice carries the type
  of the token it was cut from, is non-empty and has a line feed at most as its
  last character; the slices of a token concatenate to its text, and all yielded
  texts concatenate to the concatenation of all input texts.
\<close>

theorem delined_tokens_slices:
  "delined_tokens tokens = concat (map (\<lambda>tok. delined_text (fst tok) (snd tok)) tokens)
   \<and> (\<forall>tok \<in> set tokens. \<forall>out \<in> set (delined_text (fst tok) (snd tok)).
         fst out = fst tok \<and> snd out \<noteq> [] \<and> LF \<notin> set (butlast (snd out)))
   \<and> (\<forall>tok \<in> set tokens. concat (map snd (delined_text (fst tok) (snd tok))) = snd tok)
   \<and> (\<forall>out \<in> set (delined_tokens tokens). snd out \<noteq> [] \<and> LF \<notin> set (butlast (snd out)))
   \<and> concat (map snd (delined_tokens tokens)) = concat (map snd tokens)"
proof -
  have a: "delined_tokens tokens = concat (map (\<lambda>tok. delined_text (fst tok) (snd tok)) tokens)"
    by (rule delined_tokens_concat)
  have b: "\<forall>tok \<in> set tokens. \<forall>out \<in> set (delined_text (fst tok) (snd tok)).
         fst out = fst tok \<and> snd out \<noteq> [] \<and> LF \<notin> set (butlast (snd out))"
    using delined_text_props by blast
  have c: "\<forall>tok \<in> set tokens. concat (map snd (delined_text (fst tok) (snd tok))) = snd tok"
    by (simp add: delined_text_concat)
  have d: "\<forall>out \<in> set (delined_tokens tokens). snd out \<noteq> [] \<and> LF \<notin> set (butlast (snd out))"
    unfolding a using b by auto
  have e: "concat (map snd (delined_tokens tokens)) = concat (map snd tokens)"
    by (induction tokens) (auto simp: delined_text_concat)
  from a b c d e show ?thesis by blast
qed

theorem delined_tokens_slices_witness:
  "delined_tokens example_tokens =
     [([''Text''], ''ab'' @ [LF]), ([''Text''], ''cd'' @ [LF]), ([''Name''], ''x'')]
   \<and> list_all (\<lambda>out. snd out \<noteq> [] \<and> LF \<notin> set (butlast (snd out)))
         (delined_tokens example_tokens)
   \<and> concat (map snd (delined_tokens example_tokens)) = ''ab'' @ [LF] @ ''cd'' @ [LF] @ ''x''"
proof -
  have v: "delined_tokens example_tokens =
     [([''Text''], ''ab'' @ [LF]), ([''Text''], ''cd'' @ [LF]), ([''Name''], ''x'')]"
    by code_simp
  have c: "concat (map snd example_tokens) = ''ab'' @ [LF] @ ''cd'' @ [LF] @ ''x''"
    by (simp add: example_tokens_def)
  from delined_tokens_slices [of example_tokens]
  have "(\<forall>out \<in> set (delined_tokens example_tokens).
            snd out \<noteq> [] \<and> LF \<notin> set (butlast (snd out)))
        \<and> concat (map snd (delined_tokens example_tokens)) = concat (map snd example_tokens)"
    by blast
  with v c show ?thesis by (simp only: list_all_iff) simp
qed

section \<open>Properties of the counters\<close>

text \<open>
  Claim C1, as amended.  The reduction of a mark set to one counter follows the
  priority code, string, documentation, empty: the loop over d, s, c has no
  \<^verbatim>\<open>break\<close>, so the last mark found wins.  Exactly that counter is incremented,
  by one.
\<close>

theorem mark_priority:
  "mark_to_increment marks =
     (if CHR ''c'' \<in> marks then CHR ''c''
      else if CHR ''s'' \<in> marks then CHR ''s''
      else if CHR ''d'' \<in> marks then CHR ''d''
      else CHR ''e'')
   \<and> count_lines m [marks] = m (mark_to_increment marks := m (mark_to_increment marks) + 1)"
  by (simp add: mark_to_increment_def Let_def)

theorem mark_priority_witness:
  "mark_to_increment {CHR ''d'', CHR ''s''} = CHR ''s''
   \<and> count_lines (\<lambda>mark. 0) [{CHR ''d'', CHR ''s''}] (CHR ''s'') = 1
   \<and> count_lines (\<lambda>mark. 0) [{CHR ''d'', CHR ''s''}] (CHR ''d'') = 0"
  using mark_priority [of "{CHR ''d'', CHR ''s''}" "\<lambda>mark. 0"] by simp

text \<open>
  Claim C1 as stated fails: a line with a comment behind code has the marks d
  and c and is counted as code, not as documentation.
\<close>

theorem documentation_first_counterexample:
  "mark_to_increment {CHR ''d'', CHR ''c''} \<noteq> CHR ''d''
   \<and> line_parts example_python (''x = 1  # one'' @ [LF]) = Inr [{CHR ''c'', CHR ''d''}]
   \<and> source_analysis example_env ''both.py'' ''g'' ''utf-8'' ''cp1252'' =
       Inr \<lparr>path = ''both.py'', language = Some ''Python'', group = ''g'',
            code = 1, documentation = 0, empty = 0, string = 0\<rparr>"
proof -
  have a: "mark_to_increment {CHR ''d'', CHR ''c''} \<noteq> CHR ''d''"
    by (simp add: mark_to_increment_def)
  have r: "example_read_text ''utf-8'' None (''x = 1  # one'' @ [LF]) = Text (''x = 1  # one'' @ [LF])"
    by (rule example_read_ascii) simp
  have s: "source_analysis example_env ''both.py'' ''g'' ''utf-8'' ''cp1252'' =
       Inr \<lparr>path = ''both.py'', language = Some ''Python'', group = ''g'',
            code = 1, documentation = 0, empty = 0, string = 0\<rparr>"
    unfolding source_analysis_def example_env_sel
    using r example_both by (simp add: mark_to_increment_def example_python_def)
  from a example_both s show ?thesis by blast
qed

lemma mark_to_increment_range:
  "mark_to_increment marks \<in> {CHR ''c'', CHR ''d'', CHR ''e'', CHR ''s''}"
  by (simp add: mark_to_increment_def)

lemma count_lines_total:
  "count_lines m parts (CHR ''c'') + count_lines m parts (CHR ''d'')
   + count_lines m parts (CHR ''e'') + count_lines m parts (CHR ''s'')
   = m (CHR ''c'') + m (CHR ''d'') + m (CHR ''e'') + m (CHR ''s'') + int (length parts)"
proof (induction parts arbitrary: m)
  case Nil
  show ?case by simp
next
  case (Cons p parts)
  let ?k = "mark_to_increment p"
  let ?m = "m (?k := m ?k + 1)"
  have step: "?m (CHR ''c'') + ?m (CHR ''d'') + ?m (CHR ''e'') + ?m (CHR ''s'')
              = m (CHR ''c'') + m (CHR ''d'') + m (CHR ''e'') + m (CHR ''s'') + 1"
  proof -
    from mark_to_increment_range [of p]
    consider "?k = CHR ''c''" | "?k = CHR ''d''" | "?k = CHR ''e''" | "?k = CHR ''s''"
      by auto
    then show ?thesis by cases simp_all
  qed
  have unfold: "count_lines m (p # parts) = count_lines ?m parts" by (simp add: Let_def)
  have len: "int (length (p # parts)) = int (length parts) + 1" by simp
  show ?case unfolding unfold len using Cons.IH [of ?m] step by linarith
qed

text \<open>
  Claim C2.  A file without a lexer gives the record with no language and four
  zero counts; a file whose read fails gives the record tagged \<open>error\<close> with
  four zero counts; and for a file that is read and classified, a record is
  returned whose four counts add up to the number of mark sets that the line
  classifier emitted.
\<close>

theorem counts_sum_to_lines:
  "(get_lexer_for_filename e source_path = None \<longrightarrow>
      source_analysis e source_path grp encoding fallback_encoding =
        Inr \<lparr>path = source_path, language = None, group = grp,
             code = 0, documentation = 0, empty = 0, string = 0\<rparr>)
   \<and> (get_lexer_for_filename e source_path = Some lexer
        \<and> (if encoding = ''automatic''
             then encoding_for e source_path encoding fallback_encoding
             else Inr encoding) = Inr enc
        \<and> (file_bytes e source_path = None
             \<or> (file_bytes e source_path = Some content
                 \<and> read_text e enc None content = DecodeFailure)) \<longrightarrow>
      source_analysis e source_path grp encoding fallback_encoding =
        Inr \<lparr>path = source_path, language = Some ''error'', group = grp,
             code = 0, documentation = 0, empty = 0, string = 0\<rparr>)
   \<and> (get_lexer_for_filename e source_path = Some lexer
        \<and> (if encoding = ''automatic''
             then encoding_for e source_path encoding fallback_encoding
             else Inr encoding) = Inr enc
        \<and> file_bytes e source_path = Some content
        \<and> read_text e enc None content = Text text
        \<and> line_parts lexer text = Inr parts \<longrightarrow>
      (\<exists>r. source_analysis e source_path grp encoding fallback_encoding = Inr r
           \<and> language r = Some (name lexer)
           \<and> code r + documentation r + empty r + string r = int (length parts)))"
proof (intro conjI impI)
  assume "get_lexer_for_filename e source_path = None"
  then show "source_analysis e source_path grp encoding fallback_encoding =
        Inr \<lparr>path = source_path, language = None, group = grp,
             code = 0, documentation = 0, empty = 0, string = 0\<rparr>"
    by (simp add: source_analysis_def)
next
  assume "get_lexer_for_filename e source_path = Some lexer
        \<and> (if encoding = ''automatic''
             then encoding_for e source_path encoding fallback_encoding
             else Inr encoding) = Inr enc
        \<and> (file_bytes e source_path = None
             \<or> (file_bytes e source_path = Some content
                 \<and> read_text e enc None content = DecodeFailure))"
  then show "source_analysis e source_path grp encoding fallback_encoding =
        Inr \<lparr>path = source_path, language = Some ''error'', group = grp,
             code = 0, documentation = 0, empty = 0, string = 0\<rparr>"
    by (auto simp: source_analysis_def)
next
  assume h: "get_lexer_for_filename e source_path = Some lexer
        \<and> (if encoding = ''automatic''
             then encoding_for e source_path encoding fallback_encoding
             else Inr encoding) = Inr enc
        \<and> file_bytes e source_path = Some content
        \<and> read_text e enc None content = Text text
        \<and> line_parts lexer text = Inr parts"
  let ?m = "count_lines (\<lambda>mark. 0) parts"
  let ?r = "\<lparr>path = source_path, language = Some (name lexer), group = grp,
             code = ?m (CHR ''c''), documentation = ?m (CHR ''d''),
             empty = ?m (CHR ''e''), string = ?m (CHR ''s'')\<rparr>"
  from h have "source_analysis e source_path grp encoding fallback_encoding = Inr ?r"
    by (simp add: source_analysis_def Let_def)
  moreover have "code ?r + documentation ?r + empty ?r + string ?r = int (length parts)"
    using count_lines_total [of "\<lambda>mark. 0" parts] by simp
  ultimately show "\<exists>r. source_analysis e source_path grp encoding fallback_encoding = Inr r
           \<and> language r = Some (name lexer)
           \<and> code r + documentation r + empty r + string r = int (length parts)"
    by (intro exI [of _ ?r]) simp
qed

theorem counts_sum_to_lines_witness:
  "source_analysis example_env ''notes.txt'' ''g'' ''utf-8'' ''cp1252'' =
     Inr \<lparr>path = ''notes.txt'', language = None, group = ''g'',
          code = 0, documentation = 0, empty = 0, string = 0\<rparr>
   \<and> source_analysis example_env ''gone.py'' ''g'' ''utf-8'' ''cp1252'' =
     Inr \<lparr>path = ''gone.py'', language = Some ''error'', group = ''g'',
          code = 0, documentation = 0, empty = 0, string = 0\<rparr>
   \<and> (\<exists>r. source_analysis example_env ''doc.py'' ''g'' ''utf-8'' ''cp1252'' = Inr r
          \<and> language r = Some ''Python''
          \<and> code r + documentation r + empty r + string r = 3)"
proof -
  have a: "source_analysis example_env ''notes.txt'' ''g'' ''utf-8'' ''cp1252'' =
     Inr \<lparr>path = ''notes.txt'', language = None, group = ''g'',
          code = 0, documentation = 0, empty = 0, string = 0\<rparr>"
    using counts_sum_to_lines [of example_env "''notes.txt''" "''g''" "''utf-8''" "''cp1252''"]
    by (simp add: example_env_sel)
  have b: "source_analysis example_env ''gone.py'' ''g'' ''utf-8'' ''cp1252'' =
     Inr \<lparr>path = ''gone.py'', language = Some ''error'', group = ''g'',
          code = 0, documentation = 0, empty = 0, string = 0\<rparr>"
    using counts_sum_to_lines [of example_env "''gone.py''" "''g''" "''utf-8''" "''cp1252''"
        example_python "''utf-8''"]
    by (simp add: example_env_sel)
  have c: "\<exists>r. source_analysis example_env ''doc.py'' ''g'' ''utf-8'' ''cp1252'' = Inr r
          \<and> language r = Some ''Python''
          \<and> code r + documentation r + empty r + string r = 3"
    using counts_sum_to_lines [of example_env "''doc.py''" "''g''" "''utf-8''" "''cp1252''"
        example_python "''utf-8''"
        "''def f():'' @ [LF] @ ''  '' @ [CHR 0x27] @ ''doc'' @ [CHR 0x27, LF]
         @ ''  x = '' @ [CHR 0x27] @ ''doc'' @ [CHR 0x27, LF]"
        "''def f():'' @ [LF] @ ''  '' @ [CHR 0x27] @ ''doc'' @ [CHR 0x27, LF]
         @ ''  x = '' @ [CHR 0x27] @ ''doc'' @ [CHR 0x27, LF]"
        "[{CHR ''c''}, {CHR ''d''}, {CHR ''c'', CHR ''s''}]"]
      example_doc example_doc_read
    by (simp add: example_env_sel example_python_def)
  from a b c show ?thesis by blast
qed

section \<open>Properties of the error handling\<close>



text \<open>
  The read of \<^verbatim>\<open>encoding_for\<close> is outside the \<^verbatim>\<open>try\<close> block: in automatic mode a
  file that cannot be opened fails while the encoding is resolved, before the
  read that the claim is about.
\<close>

lemma automatic_missing_file_raises:
  "get_lexer_for_filename e source_path = Some lexer \<Longrightarrow> file_bytes e source_path = None \<Longrightarrow>
   source_analysis e source_path grp ''automatic'' fallback_encoding = Inl OSError"
  by (simp add: source_analysis_def encoding_for_def)

section \<open>Properties of the line classifier\<close>

lemma rstrip_empty_iff: "rstrip chars s = [] \<longleftrightarrow> filter (\<lambda>c. c \<notin> set chars) s = []"
  by (simp add: rstrip_def filter_empty_conv)

lemma rstrip_empty_subset: "rstrip chars s = [] \<longleftrightarrow> set s \<subseteq> set chars"
  by (auto simp: rstrip_def)

lemma add_marks_other:
  "\<not> type_in token_type Comment \<Longrightarrow> \<not> type_in token_type String \<Longrightarrow>
   add_marks white_text white_words line_marks (token_type, token_text) =
     (if strip token_text \<in> set white_words \<or> rstrip white_text token_text = []
      then line_marks else insert (CHR ''c'') line_marks)"
  by (simp add: add_marks_def)

lemma strip_pass: "strip ''pass'' = ''pass''"
  by (simp add: strip_def py_isspace_def)

lemma delined_pass_line:
  "delined_tokens [(t1, ''pass''), (t2, [LF])] = [(t1, ''pass''), (t2, [LF])]"
  by (simp add: delined_text.simps)

lemma pythonized_pass_line:
  "\<not> type_in t1 String \<Longrightarrow> \<not> type_in t1 Comment \<Longrightarrow> \<not> type_in t2 String \<Longrightarrow>
   pythonized_comments [(t1, ''pass''), (t2, [LF])] = [(t1, ''pass''), (t2, [LF])]"
  by (simp add: pythonized_comments_def pythonized_step_def rstrip_def)

lemma pass_line_white:
  "\<not> type_in t1 String \<Longrightarrow> \<not> type_in t1 Comment \<Longrightarrow>
   \<not> type_in t2 String \<Longrightarrow> \<not> type_in t2 Comment \<Longrightarrow>
   line_parts_loop ([CHR '' '', FF, LF, CR, TAB] @ ''()[]{};'') white_words {}
     [(t1, ''pass''), (t2, [LF])]
   = (if ''pass'' \<in> set white_words then [{}] else [{CHR ''c''}])"
  by (simp add: add_marks_other strip_pass rstrip_def endswith_nl_def strip_def py_isspace_def)

lemma map_of_white_words_python:
  "map_of LANGUAGE_TO_WHITE_WORDS_MAP ''python'' = Some [''pass'']"
  by (simp add: LANGUAGE_TO_WHITE_WORDS_MAP_def)

lemma line_parts_named_Python:
  "name lexer = ''Python'' \<Longrightarrow>
   line_parts lexer text =
     Inr (line_parts_loop ([CHR '' '', FF, LF, CR, TAB] @ ''()[]{};'') [''pass''] {}
            (pythonized_comments (delined_tokens (get_tokens lexer text))))"
  by (simp add: line_parts_def lower_Python white_python)

lemma line_parts_not_Python:
  "name lexer \<noteq> ''Python'' \<Longrightarrow>
   white_characters (lower (name lexer)) = Inr white_chars \<Longrightarrow>
   white_code_words (lower (name lexer)) = Inr white_words \<Longrightarrow>
   line_parts lexer text =
     Inr (line_parts_loop ([CHR '' '', FF, LF, CR, TAB] @ white_chars) white_words {}
            (delined_tokens (get_tokens lexer text)))"
  by (simp add: line_parts_def)

text \<open>
  Claim C7.  A token that is neither a comment nor a string adds no mark when
  its stripped text is a white code word or when nothing is left of its text
  once the whitespace and the white characters are removed; otherwise it adds the
  mark c.  For a lexer named Python a line that holds only \<open>pass\<close> gives the
  empty mark set, which is counted as empty; for a lexer whose language has no
  white code words the same line gives the mark c, which is counted as code.
\<close>

theorem white_code_words_pass:
  "(\<not> type_in token_type Comment \<and> \<not> type_in token_type String \<longrightarrow>
      add_marks white_text white_words line_marks (token_type, token_text) =
        (if strip token_text \<in> set white_words
            \<or> filter (\<lambda>c. c \<notin> set white_text) token_text = []
         then line_marks else insert (CHR ''c'') line_marks))
   \<and> (name lexer = ''Python'' \<and> get_tokens lexer text = [(t1, ''pass''), (t2, [LF])]
        \<and> \<not> type_in t1 Comment \<and> \<not> type_in t1 String
        \<and> \<not> type_in t2 Comment \<and> \<not> type_in t2 String \<longrightarrow>
      line_parts lexer text = Inr [{}] \<and> mark_to_increment {} = CHR ''e'')
   \<and> (islower (lower (name lexer))
        \<and> map_of LANGUAGE_TO_WHITE_WORDS_MAP (lower (name lexer)) = None
        \<and> get_tokens lexer text = [(t1, ''pass''), (t2, [LF])]
        \<and> \<not> type_in t1 Comment \<and> \<not> type_in t1 String
        \<and> \<not> type_in t2 Comment \<and> \<not> type_in t2 String \<longrightarrow>
      line_parts lexer text = Inr [{CHR ''c''}] \<and> mark_to_increment {CHR ''c''} = CHR ''c'')"
proof (intro conjI impI)
  assume "\<not> type_in token_type Comment \<and> \<not> type_in token_type String"
  then show "add_marks white_text white_words line_marks (token_type, token_text) =
        (if strip token_text \<in> set white_words
            \<or> filter (\<lambda>c. c \<notin> set white_text) token_text = []
         then line_marks else insert (CHR ''c'') line_marks)"
    by (simp add: add_marks_other rstrip_empty_iff)
next
  assume h: "name lexer = ''Python'' \<and> get_tokens lexer text = [(t1, ''pass''), (t2, [LF])]
        \<and> \<not> type_in t1 Comment \<and> \<not> type_in t1 String
        \<and> \<not> type_in t2 Comment \<and> \<not> type_in t2 String"
  then have nm: "name lexer = ''Python''"
    and tk: "get_tokens lexer text = [(t1, ''pass''), (t2, [LF])]" by simp_all
  from h have p: "pythonized_comments [(t1, ''pass''), (t2, [LF])] = [(t1, ''pass''), (t2, [LF])]"
    by (simp add: pythonized_pass_line)
  from h have l: "line_parts_loop ([CHR '' '', FF, LF, CR, TAB] @ ''()[]{};'') [''pass''] {}
     [(t1, ''pass''), (t2, [LF])] = [{}]"
    by (subst pass_line_white) simp_all
  show "line_parts lexer text = Inr [{}]"
    unfolding line_parts_named_Python [OF nm] tk delined_pass_line p l ..
next
  show "mark_to_increment {} = CHR ''e''" by (simp add: mark_to_increment_def)
next
  assume h: "islower (lower (name lexer))
        \<and> map_of LANGUAGE_TO_WHITE_WORDS_MAP (lower (name lexer)) = None
        \<and> get_tokens lexer text = [(t1, ''pass''), (t2, [LF])]
        \<and> \<not> type_in t1 Comment \<and> \<not> type_in t1 String
        \<and> \<not> type_in t2 Comment \<and> \<not> type_in t2 String"
  then have w: "white_characters (lower (name lexer)) = Inr ''()[]{};''"
    "white_code_words (lower (name lexer)) = Inr []"
    by (simp_all add: white_characters_def white_code_words_def)
  from h have tk: "get_tokens lexer text = [(t1, ''pass''), (t2, [LF])]" by simp
  have nm: "name lexer \<noteq> ''Python''"
  proof
    assume "name lexer = ''Python''"
    with h show False by (simp add: lower_Python map_of_white_words_python)
  qed
  from h have l: "line_parts_loop ([CHR '' '', FF, LF, CR, TAB] @ ''()[]{};'') [] {}
     [(t1, ''pass''), (t2, [LF])] = [{CHR ''c''}]"
    by (subst pass_line_white) simp_all
  show "line_parts lexer text = Inr [{CHR ''c''}]"
    unfolding line_parts_not_Python [OF nm w] tk delined_pass_line l ..
next
  show "mark_to_increment {CHR ''c''} = CHR ''c''" by (simp add: mark_to_increment_def)
qed

theorem white_code_words_pass_witness:
  "add_marks ([CHR '' '', FF, LF, CR, TAB] @ ''()[]{};'') [''pass''] {} ([''Keyword''], ''pass'') = {}
   \<and> add_marks ([CHR '' '', FF, LF, CR, TAB] @ ''()[]{};'') [] {} ([''Keyword''], ''pass'')
       = {CHR ''c''}
   \<and> line_parts example_python (''pass'' @ [LF]) = Inr [{}]
   \<and> line_parts example_ruby (''pass'' @ [LF]) = Inr [{CHR ''c''}]
   \<and> source_analysis example_env ''pass.py'' ''g'' ''utf-8'' ''cp1252'' =
       Inr \<lparr>path = ''pass.py'', language = Some ''Python'', group = ''g'',
            code = 0, documentation = 0, empty = 1, string = 0\<rparr>
   \<and> source_analysis example_env ''pass.rb'' ''g'' ''utf-8'' ''cp1252'' =
       Inr \<lparr>path = ''pass.rb'', language = Some ''Ruby'', group = ''g'',
            code = 1, documentation = 0, empty = 0, string = 0\<rparr>"
proof -
  have ty: "\<not> type_in [''Keyword''] Comment" "\<not> type_in [''Keyword''] String"
    "\<not> type_in [''Text''] Comment" "\<not> type_in [''Text''] String"
    by (simp_all add: type_in_def Comment_def String_def)
  have tk: "get_tokens example_python (''pass'' @ [LF]) = [([''Keyword''], ''pass''), ([''Text''], [LF])]"
    "get_tokens example_ruby (''pass'' @ [LF]) = [([''Keyword''], ''pass''), ([''Text''], [LF])]"
    by (simp_all add: example_python_def example_ruby_def example_get_tokens_def)
  have rb: "islower (lower (name example_ruby))"
    "map_of LANGUAGE_TO_WHITE_WORDS_MAP (lower (name example_ruby)) = None"
    by (simp_all add: example_ruby_def lower_Ruby islower_def is_lower_def is_upper_def
          LANGUAGE_TO_WHITE_WORDS_MAP_def)
  have py: "name example_python = ''Python''" by (simp add: example_python_def)
  have m1: "add_marks ([CHR '' '', FF, LF, CR, TAB] @ ''()[]{};'') [''pass''] {}
              ([''Keyword''], ''pass'') = {}"
    using white_code_words_pass [of "[''Keyword'']" "[CHR '' '', FF, LF, CR, TAB] @ ''()[]{};''"
        "[''pass'']" "{}" "''pass''"] ty
    by (simp add: strip_pass)
  have m2: "add_marks ([CHR '' '', FF, LF, CR, TAB] @ ''()[]{};'') [] {}
              ([''Keyword''], ''pass'') = {CHR ''c''}"
    using white_code_words_pass [of "[''Keyword'']" "[CHR '' '', FF, LF, CR, TAB] @ ''()[]{};''"
        "[]" "{}" "''pass''"] ty
    by simp
  have l1: "line_parts example_python (''pass'' @ [LF]) = Inr [{}]"
    using white_code_words_pass [of _ _ _ _ _ example_python "''pass'' @ [LF]"
        "[''Keyword'']" "[''Text'']"] ty tk py
    by blast
  have l2: "line_parts example_ruby (''pass'' @ [LF]) = Inr [{CHR ''c''}]"
    using white_code_words_pass [of _ _ _ _ _ example_ruby "''pass'' @ [LF]"
        "[''Keyword'']" "[''Text'']"] ty tk rb
    by blast
  have r: "example_read_text ''utf-8'' None (''pass'' @ [LF]) = Text (''pass'' @ [LF])"
    by (rule example_read_ascii) simp
  have s1: "source_analysis example_env ''pass.py'' ''g'' ''utf-8'' ''cp1252'' =
       Inr \<lparr>path = ''pass.py'', language = Some ''Python'', group = ''g'',
            code = 0, documentation = 0, empty = 1, string = 0\<rparr>"
    unfolding source_analysis_def example_env_sel
    using r l1 by (simp add: mark_to_increment_def example_python_def)
  have s2: "source_analysis example_env ''pass.rb'' ''g'' ''utf-8'' ''cp1252'' =
       Inr \<lparr>path = ''pass.rb'', language = Some ''Ruby'', group = ''g'',
            code = 1, documentation = 0, empty = 0, string = 0\<rparr>"
    unfolding source_analysis_def example_env_sel
    using r l2 by (simp add: mark_to_increment_def example_ruby_def)
  from m1 m2 l1 l2 s1 s2 show ?thesis by blast
qed

lemma line_parts_loop_append:
  "pre \<noteq> [] \<Longrightarrow> endswith_nl (snd (last pre)) \<Longrightarrow>
   line_parts_loop wt ww m (pre @ rest) =
     line_parts_loop wt ww m pre @ line_parts_loop wt ww {} rest"
proof (induction pre arbitrary: m)
  case Nil
  then show ?case by simp
next
  case (Cons tok pre)
  show ?case
  proof (cases "pre = []")
    case True
    with Cons.prems show ?thesis by (simp add: Let_def)
  next
    case False
    with Cons.prems have "endswith_nl (snd (last pre))" by simp
    from Cons.IH [OF False this] show ?thesis by (simp add: Let_def)
  qed
qed

lemma line_parts_loop_complete:
  "pre = [] \<or> endswith_nl (snd (last pre)) \<Longrightarrow>
   line_parts_loop wt ww {} (pre @ rest) =
     line_parts_loop wt ww {} pre @ line_parts_loop wt ww {} rest"
  by (cases "pre = []") (simp_all add: line_parts_loop_append)

lemma white_tail_not_emitted:
  "\<forall>t \<in> set tail. add_marks wt ww {} t = {} \<and> \<not> endswith_nl (snd t) \<Longrightarrow>
   line_parts_loop wt ww {} tail = []"
  by (induction tail) (simp_all add: Let_def)

lemma white_line_emitted:
  "\<forall>t \<in> set ws. add_marks wt ww {} t = {} \<and> \<not> endswith_nl (snd t) \<Longrightarrow>
   add_marks wt ww {} tok = {} \<Longrightarrow> endswith_nl (snd tok) \<Longrightarrow>
   line_parts_loop wt ww {} (ws @ [tok]) = [{}]"
  by (induction ws) (simp_all add: Let_def)

text \<open>
  Claim C10.  Behind complete lines, a line of whitespace tokens that ends with a
  line feed is emitted as the empty mark set, and the empty mark set increments
  the counter e; a last line without a line feed whose tokens are all
  whitespace, white characters or white code words is not emitted, so the mark
  sets and hence all four counters are those of the lines before it.
\<close>

theorem trailing_white_line_not_counted:
  "((pre = [] \<or> endswith_nl (snd (last pre)))
     \<and> (\<forall>t \<in> set ws. \<not> type_in (fst t) Comment \<and> \<not> type_in (fst t) String
            \<and> set (snd t) \<subseteq> set [CHR '' '', FF, LF, CR, TAB] \<and> \<not> endswith_nl (snd t))
     \<and> \<not> type_in ty Comment \<and> \<not> type_in ty String
     \<and> set tx \<subseteq> set [CHR '' '', FF, LF, CR, TAB] \<and> endswith_nl tx \<longrightarrow>
      line_parts_loop ([CHR '' '', FF, LF, CR, TAB] @ white_chars) white_words {}
          (pre @ ws @ [(ty, tx)])
        = line_parts_loop ([CHR '' '', FF, LF, CR, TAB] @ white_chars) white_words {} pre
          @ [{}]
      \<and> count_lines m [{}] = m (CHR ''e'' := m (CHR ''e'') + 1))
   \<and> ((pre = [] \<or> endswith_nl (snd (last pre)))
     \<and> (\<forall>t \<in> set tail. \<not> type_in (fst t) Comment \<and> \<not> type_in (fst t) String
            \<and> (strip (snd t) \<in> set white_words
                \<or> set (snd t) \<subseteq> set ([CHR '' '', FF, LF, CR, TAB] @ white_chars))
            \<and> \<not> endswith_nl (snd t)) \<longrightarrow>
      line_parts_loop ([CHR '' '', FF, LF, CR, TAB] @ white_chars) white_words {}
          (pre @ tail)
        = line_parts_loop ([CHR '' '', FF, LF, CR, TAB] @ white_chars) white_words {} pre
      \<and> count_lines m
            (line_parts_loop ([CHR '' '', FF, LF, CR, TAB] @ white_chars) white_words {}
               (pre @ tail))
        = count_lines m
            (line_parts_loop ([CHR '' '', FF, LF, CR, TAB] @ white_chars) white_words {}
               pre))"
  (is "(?A1 \<longrightarrow> ?C1 \<and> ?E) \<and> (?A2 \<longrightarrow> ?C2 \<and> ?C3)")
proof -
  let ?wt = "[CHR '' '', FF, LF, CR, TAB] @ white_chars"
  have first: ?C1 if h: ?A1
  proof -
    from h have c: "pre = [] \<or> endswith_nl (snd (last pre))"
      and w: "\<forall>t \<in> set ws. \<not> type_in (fst t) Comment \<and> \<not> type_in (fst t) String
            \<and> set (snd t) \<subseteq> set [CHR '' '', FF, LF, CR, TAB] \<and> \<not> endswith_nl (snd t)"
      and t: "\<not> type_in ty Comment" "\<not> type_in ty String"
        "set tx \<subseteq> set [CHR '' '', FF, LF, CR, TAB]" "endswith_nl tx"
      by blast+
    have a: "\<forall>t \<in> set ws. add_marks ?wt white_words {} t = {} \<and> \<not> endswith_nl (snd t)"
    proof
      fix t assume "t \<in> set ws"
      with w have "\<not> type_in (fst t) Comment" "\<not> type_in (fst t) String"
        "set (snd t) \<subseteq> set ?wt" "\<not> endswith_nl (snd t)" by auto
      then show "add_marks ?wt white_words {} t = {} \<and> \<not> endswith_nl (snd t)"
        using add_marks_other [of "fst t" ?wt white_words "{}" "snd t"]
        by (simp add: rstrip_empty_subset)
    qed
    from t have b: "add_marks ?wt white_words {} (ty, tx) = {}"
      using add_marks_other [of ty ?wt white_words "{}" tx]
      by (auto simp: rstrip_empty_subset)
    from white_line_emitted [OF a b] t
    have "line_parts_loop ?wt white_words {} (ws @ [(ty, tx)]) = [{}]" by simp
    with line_parts_loop_complete [OF c, of ?wt white_words "ws @ [(ty, tx)]"]
    show ?thesis by simp
  qed
  have second: ?C2 if h: ?A2
  proof -
    from h have c: "pre = [] \<or> endswith_nl (snd (last pre))"
      and w: "\<forall>t \<in> set tail. \<not> type_in (fst t) Comment \<and> \<not> type_in (fst t) String
            \<and> (strip (snd t) \<in> set white_words \<or> set (snd t) \<subseteq> set ?wt)
            \<and> \<not> endswith_nl (snd t)"
      by blast+
    have a: "\<forall>t \<in> set tail. add_marks ?wt white_words {} t = {} \<and> \<not> endswith_nl (snd t)"
    proof
      fix t assume "t \<in> set tail"
      with w have "\<not> type_in (fst t) Comment" "\<not> type_in (fst t) String"
        "strip (snd t) \<in> set white_words \<or> set (snd t) \<subseteq> set ?wt"
        "\<not> endswith_nl (snd t)" by auto
      then show "add_marks ?wt white_words {} t = {} \<and> \<not> endswith_nl (snd t)"
        using add_marks_other [of "fst t" ?wt white_words "{}" "snd t"]
        by (auto simp: rstrip_empty_subset)
    qed
    from white_tail_not_emitted [OF a]
      line_parts_loop_complete [OF c, of ?wt white_words tail]
    show ?thesis by simp
  qed
  have third: ?C3 if h: ?A2
    using second [OF h] by (simp only:)
  have e: ?E
    by (simp add: mark_to_increment_def Let_def)
  from first second third e show ?thesis by blast
qed

theorem trailing_white_line_not_counted_witness:
  "line_parts example_python (''x'' @ [LF] @ ''  '' @ [LF] @ ''  )'') = Inr [{CHR ''c''}, {}]
   \<and> source_analysis example_env ''tail.py'' ''g'' ''utf-8'' ''cp1252'' =
       Inr \<lparr>path = ''tail.py'', language = Some ''Python'', group = ''g'',
            code = 1, documentation = 0, empty = 1, string = 0\<rparr>"
proof -
  let ?wt = "[CHR '' '', FF, LF, CR, TAB] @ ''()[]{};''"
  let ?pre = "[([''Name''], ''x''), ([''Text''], [LF])]"
  let ?line = "([''Text''], ''  '' @ [LF])"
  let ?tail = "[([''Text''], ''  ''), ([''Punctuation''], '')'')]"
  have ty: "\<not> type_in [''Text''] Comment" "\<not> type_in [''Text''] String"
    "\<not> type_in [''Punctuation''] Comment" "\<not> type_in [''Punctuation''] String"
    by (simp_all add: type_in_def Comment_def String_def)
  have toks: "pythonized_comments (delined_tokens (example_get_tokens
                (''x'' @ [LF] @ ''  '' @ [LF] @ ''  )''))) = (?pre @ [] @ [?line]) @ ?tail"
    by (simp add: example_get_tokens_def eval_defs)
  have p0: "line_parts_loop ?wt [''pass''] {} ?pre = [{CHR ''c''}]"
    by (simp add: eval_defs)
  have p1: "line_parts_loop ?wt [''pass''] {} (?pre @ [] @ [?line])
              = line_parts_loop ?wt [''pass''] {} ?pre @ [{}]"
    using trailing_white_line_not_counted [of ?pre "[]" "[''Text'']" "''  '' @ [LF]"
        "''()[]{};''" "[''pass'']"] ty
    by (simp add: endswith_nl_def)
  have p2: "line_parts_loop ?wt [''pass''] {} ((?pre @ [] @ [?line]) @ ?tail)
              = line_parts_loop ?wt [''pass''] {} (?pre @ [] @ [?line])"
    using trailing_white_line_not_counted [of "?pre @ [] @ [?line]" _ _ _
        "''()[]{};''" "[''pass'']" _ ?tail] ty
    by (simp add: endswith_nl_def)
  have l: "line_parts example_python (''x'' @ [LF] @ ''  '' @ [LF] @ ''  )'')
             = Inr [{CHR ''c''}, {}]"
    unfolding line_parts_python toks p2 p1 p0 by simp
  have r: "example_read_text ''utf-8'' None (''x'' @ [LF] @ ''  '' @ [LF] @ ''  )'')
             = Text (''x'' @ [LF] @ ''  '' @ [LF] @ ''  )'')"
    by (rule example_read_ascii) simp
  have s: "source_analysis example_env ''tail.py'' ''g'' ''utf-8'' ''cp1252'' =
       Inr \<lparr>path = ''tail.py'', language = Some ''Python'', group = ''g'',
            code = 1, documentation = 0, empty = 1, string = 0\<rparr>"
    unfolding source_analysis_def example_env_sel
    using r l by (simp add: mark_to_increment_def example_python_def)
  from l s show ?thesis by blast
qed

section \<open>Properties of the documentation reclassifier\<close>

lemma string_not_comment: "type_in t String \<Longrightarrow> \<not> type_in t Comment"
  by (cases t) (auto simp: type_in_def String_def Comment_def)

lemma pythonized_loop_length: "length (pythonized_loop b tokens) = length tokens"
  by (induction tokens arbitrary: b) (auto split: prod.splits)

lemma pythonized_loop_append:
  "\<exists>b'. pythonized_loop b (xs @ ys) = pythonized_loop b xs @ pythonized_loop b' ys"
proof (induction xs arbitrary: b)
  case Nil
  show ?case by auto
next
  case (Cons x xs)
  obtain b1 x1 where s: "pythonized_step b x = (b1, x1)" by (cases "pythonized_step b x")
  from Cons [of b1] obtain b' where
    "pythonized_loop b1 (xs @ ys) = pythonized_loop b1 xs @ pythonized_loop b' ys" ..
  with s show ?case by auto
qed

lemma colon_not_blank: "rstrip [CHR '' '', FF, LF, CR, TAB] '':'' \<noteq> []"
  by (simp add: rstrip_def)

lemma blank_step:
  "rstrip [CHR '' '', FF, LF, CR, TAB] (snd t) = [] \<Longrightarrow> fst (pythonized_step b t) = b"
  using colon_not_blank by (cases t) (auto simp: pythonized_step_def)

lemma blank_tokens_keep_flag:
  "\<forall>t \<in> set ws. rstrip [CHR '' '', FF, LF, CR, TAB] (snd t) = [] \<Longrightarrow>
   pythonized_loop b (ws @ rest) = pythonized_loop b ws @ pythonized_loop b rest"
proof (induction ws)
  case Nil
  show ?case by simp
next
  case (Cons t ws)
  then have k: "fst (pythonized_step b t) = b" by (simp add: blank_step)
  obtain t' where s: "pythonized_step b t = (b, t')"
    using k by (cases "pythonized_step b t") auto
  from Cons show ?case by (simp add: s)
qed

lemma colon_step: "fst (pythonized_step b (ty, '':'')) = True"
  by (simp add: pythonized_step_def)

lemma code_step:
  "\<not> type_in ty Comment \<Longrightarrow> \<not> type_in ty String \<Longrightarrow> tx \<noteq> '':'' \<Longrightarrow>
   rstrip [CHR '' '', FF, LF, CR, TAB] tx \<noteq> [] \<Longrightarrow>
   fst (pythonized_step b (ty, tx)) = False"
  by (simp add: pythonized_step_def)

lemma string_behind:
  assumes b0: "\<And>b'. fst (pythonized_step b' tok) = b1"
    and ws: "\<forall>t \<in> set ws. rstrip [CHR '' '', FF, LF, CR, TAB] (snd t) = []"
  shows "pythonized_loop b (pre @ tok # ws @ (sty, stext) # post) ! (length pre + 1 + length ws)
         = snd (pythonized_step b1 (sty, stext))"
proof -
  obtain b' where a: "pythonized_loop b (pre @ tok # ws @ (sty, stext) # post)
      = pythonized_loop b pre @ pythonized_loop b' (tok # ws @ (sty, stext) # post)"
    using pythonized_loop_append [of b pre "tok # ws @ (sty, stext) # post"] ..
  obtain tok' where s: "pythonized_step b' tok = (b1, tok')"
    using b0 [of b'] by (cases "pythonized_step b' tok") auto
  have c: "pythonized_loop b' (tok # ws @ (sty, stext) # post)
      = tok' # pythonized_loop b1 ws @ pythonized_loop b1 ((sty, stext) # post)"
    using blank_tokens_keep_flag [OF ws, of b1 "(sty, stext) # post"] by (simp add: s)
  obtain b2 s' where t: "pythonized_step b1 (sty, stext) = (b2, s')"
    by (cases "pythonized_step b1 (sty, stext)")
  have "pythonized_loop b (pre @ tok # ws @ (sty, stext) # post)
      = (pythonized_loop b pre @ tok' # pythonized_loop b1 ws) @ s' # pythonized_loop b2 post"
    unfolding a c by (simp add: t)
  moreover have "length (pythonized_loop b pre @ tok' # pythonized_loop b1 ws)
      = length pre + 1 + length ws"
    by (simp add: pythonized_loop_length)
  ultimately show ?thesis
    by (metis nth_append_length t snd_conv)
qed

text \<open>
  Claim C3.  The reclassifier starts with the flag set.  With the flag set a
  string token becomes a comment token and the flag stays; otherwise a token
  whose text is a colon sets the flag; otherwise a token that is no comment and
  whose text is not blank clears it; any other token leaves it.  Hence a string
  behind a colon, with only blank tokens between them, is yielded as a comment
  and marked d, while a string behind a non-blank token of code that is no
  colon is yielded as it is and marked s.
\<close>

theorem docstring_after_colon:
  "pythonized_comments tokens = pythonized_loop True tokens
   \<and> (type_in token_type String \<longrightarrow>
        pythonized_step True (token_type, token_text) = (True, (Comment, token_text)))
   \<and> fst (pythonized_step after (token_type, '':'')) = True
   \<and> (\<not> (after \<and> type_in token_type String) \<longrightarrow>
        pythonized_step after (token_type, '':'') = (True, (token_type, '':'')))
   \<and> (\<not> (after \<and> type_in token_type String) \<and> token_text \<noteq> '':''
        \<and> \<not> type_in token_type Comment
        \<and> rstrip [CHR '' '', FF, LF, CR, TAB] token_text \<noteq> [] \<longrightarrow>
        pythonized_step after (token_type, token_text) = (False, (token_type, token_text)))
   \<and> (\<not> (after \<and> type_in token_type String) \<and> token_text \<noteq> '':''
        \<and> (type_in token_type Comment
            \<or> rstrip [CHR '' '', FF, LF, CR, TAB] token_text = []) \<longrightarrow>
        pythonized_step after (token_type, token_text) = (after, (token_type, token_text)))
   \<and> (type_in sty String
        \<and> (\<forall>t \<in> set ws. rstrip [CHR '' '', FF, LF, CR, TAB] (snd t) = []) \<longrightarrow>
        pythonized_loop after (pre @ (cty, '':'') # ws @ (sty, stext) # post)
          ! (length pre + 1 + length ws) = (Comment, stext)
        \<and> add_marks white_text white_words line_marks (Comment, stext)
            = insert (CHR ''d'') line_marks)
   \<and> (type_in sty String
        \<and> \<not> type_in oty Comment \<and> \<not> type_in oty String \<and> otext \<noteq> '':''
        \<and> rstrip [CHR '' '', FF, LF, CR, TAB] otext \<noteq> []
        \<and> (\<forall>t \<in> set ws. rstrip [CHR '' '', FF, LF, CR, TAB] (snd t) = []) \<longrightarrow>
        pythonized_loop after (pre @ (oty, otext) # ws @ (sty, stext) # post)
          ! (length pre + 1 + length ws) = (sty, stext)
        \<and> add_marks white_text white_words line_marks (sty, stext)
            = insert (CHR ''s'') line_marks)"
  (is "?I \<and> (?A1 \<longrightarrow> ?C1) \<and> ?K \<and> (?A2 \<longrightarrow> ?C2) \<and> (?A3 \<longrightarrow> ?C3) \<and> (?A4 \<longrightarrow> ?C4)
       \<and> (?A5 \<longrightarrow> ?C5 \<and> ?D5) \<and> (?A6 \<longrightarrow> ?C6 \<and> ?D6)")
proof -
  have i: ?I by (simp add: pythonized_comments_def)
  have c1: ?C1 if ?A1 using that by (simp add: pythonized_step_def)
  have k: ?K by (rule colon_step)
  have c2: ?C2 if ?A2 using that by (auto simp: pythonized_step_def)
  have c3: ?C3 if ?A3 using that by (auto simp: pythonized_step_def)
  have c4: ?C4 if ?A4 using that colon_not_blank
    by (auto simp: pythonized_step_def)
  have c5: ?C5 if h: ?A5
  proof -
    from h have ws: "\<forall>t \<in> set ws. rstrip [CHR '' '', FF, LF, CR, TAB] (snd t) = []"
      and st: "type_in sty String" by blast+
    from st have "snd (pythonized_step True (sty, stext)) = (Comment, stext)"
      by (simp add: pythonized_step_def)
    with string_behind [of "(cty, '':'')" True ws after pre sty stext post, OF colon_step ws]
    show ?thesis by simp
  qed
  have d5: ?D5
    by (simp add: add_marks_def type_in_def Comment_def)
  have c6: ?C6 if h: ?A6
  proof -
    from h have ws: "\<forall>t \<in> set ws. rstrip [CHR '' '', FF, LF, CR, TAB] (snd t) = []"
      and o: "\<not> type_in oty Comment" "\<not> type_in oty String" "otext \<noteq> '':''"
        "rstrip [CHR '' '', FF, LF, CR, TAB] otext \<noteq> []"
      by blast+
    have "snd (pythonized_step False (sty, stext)) = (sty, stext)"
      by (simp add: pythonized_step_def Let_def)
    with string_behind [of "(oty, otext)" False ws after pre sty stext post,
        OF code_step [OF o] ws]
    show ?thesis by simp
  qed
  have d6: ?D6 if h: ?A6
  proof -
    from h have "type_in sty String" by blast
    with string_not_comment [of sty] show ?thesis by (simp add: add_marks_def)
  qed
  from i c1 k c2 c3 c4 c5 d5 c6 d6 show ?thesis by blast
qed

theorem docstring_after_colon_witness:
  "pythonized_comments (delined_tokens (example_get_tokens
      (''def f():'' @ [LF] @ ''  '' @ [CHR 0x27] @ ''doc'' @ [CHR 0x27, LF]
       @ ''  x = '' @ [CHR 0x27] @ ''doc'' @ [CHR 0x27, LF]))) ! 8
     = (Comment, [CHR 0x27] @ ''doc'' @ [CHR 0x27])
   \<and> pythonized_comments (delined_tokens (example_get_tokens
      (''def f():'' @ [LF] @ ''  '' @ [CHR 0x27] @ ''doc'' @ [CHR 0x27, LF]
       @ ''  x = '' @ [CHR 0x27] @ ''doc'' @ [CHR 0x27, LF]))) ! 15
     = ([''Literal'', ''String'', ''Single''], [CHR 0x27] @ ''doc'' @ [CHR 0x27])
   \<and> pythonized_step True ([''Literal'', ''String'', ''Doc''], ''x'') = (True, (Comment, ''x''))
   \<and> pythonized_step False ([''Punctuation''], '':'') = (True, ([''Punctuation''], '':''))
   \<and> pythonized_step True ([''Operator''], ''='') = (False, ([''Operator''], ''=''))
   \<and> pythonized_step False ([''Text''], [LF]) = (False, ([''Text''], [LF]))
   \<and> line_parts example_python
      (''def f():'' @ [LF] @ ''  '' @ [CHR 0x27] @ ''doc'' @ [CHR 0x27, LF]
       @ ''  x = '' @ [CHR 0x27] @ ''doc'' @ [CHR 0x27, LF])
     = Inr [{CHR ''c''}, {CHR ''d''}, {CHR ''c'', CHR ''s''}]"
proof -
  let ?q = "CHR 0x27"
  let ?pre1 = "[([''Keyword''], ''def''), ([''Text''], '' ''), ([''Name'', ''Function''], ''f''),
            ([''Punctuation''], ''(''), ([''Punctuation''], '')'')]"
  let ?ws1 = "[([''Text''], [LF]), ([''Text''], ''  '')]"
  let ?post1 = "[([''Text''], [LF]), ([''Text''], ''  ''), ([''Name''], ''x''), ([''Text''], '' ''),
            ([''Operator''], ''=''), ([''Text''], '' ''),
            ([''Literal'', ''String'', ''Single''], [?q] @ ''doc'' @ [?q]),
            ([''Text''], [LF])]"
  let ?pre2 = "?pre1 @ ([''Punctuation''], '':'') # ?ws1
            @ [([''Literal'', ''String'', ''Doc''], [?q] @ ''doc'' @ [?q]),
               ([''Text''], [LF]), ([''Text''], ''  ''), ([''Name''], ''x''), ([''Text''], '' '')]"
  have ty: "type_in [''Literal'', ''String'', ''Doc''] String"
    "type_in [''Literal'', ''String'', ''Single''] String"
    "\<not> type_in [''Operator''] Comment" "\<not> type_in [''Operator''] String"
    "\<not> type_in [''Punctuation''] String" "\<not> type_in [''Text''] String"
    "\<not> type_in [''Text''] Comment"
    by (simp_all add: type_in_def Comment_def String_def)
  have toks: "delined_tokens (example_get_tokens
      (''def f():'' @ [LF] @ ''  '' @ [?q] @ ''doc'' @ [?q, LF]
       @ ''  x = '' @ [?q] @ ''doc'' @ [?q, LF]))
     = ?pre1 @ ([''Punctuation''], '':'') # ?ws1
        @ ([''Literal'', ''String'', ''Doc''], [?q] @ ''doc'' @ [?q]) # ?post1"
    by (simp add: example_get_tokens_def delined_text.simps)
  let ?L = "?pre1 @ ([''Punctuation''], '':'') # ?ws1
        @ ([''Literal'', ''String'', ''Doc''], [?q] @ ''doc'' @ [?q]) # ?post1"
  have h1: "type_in [''Literal'', ''String'', ''Doc''] String
        \<and> (\<forall>t \<in> set ?ws1. rstrip [CHR '' '', FF, LF, CR, TAB] (snd t) = [])"
    using ty by (simp add: rstrip_def)
  have h2: "type_in [''Literal'', ''String'', ''Single''] String
        \<and> \<not> type_in [''Operator''] Comment \<and> \<not> type_in [''Operator''] String
        \<and> ''='' \<noteq> '':''
        \<and> rstrip [CHR '' '', FF, LF, CR, TAB] ''='' \<noteq> []
        \<and> (\<forall>t \<in> set [([''Text''], '' '')]. rstrip [CHR '' '', FF, LF, CR, TAB] (snd t) = [])"
    using ty by (simp add: rstrip_def)
  have a0: "pythonized_loop True ?L ! (length ?pre1 + 1 + length ?ws1)
      = (Comment, [?q] @ ''doc'' @ [?q])"
    using docstring_after_colon [where sty = "[''Literal'', ''String'', ''Doc'']"
        and ws = ?ws1 and after = True and pre = ?pre1 and cty = "[''Punctuation'']"
        and stext = "[?q] @ ''doc'' @ [?q]" and post = ?post1] h1
    by blast
  have b0: "pythonized_loop True (?pre2 @ ([''Operator''], ''='') # [([''Text''], '' '')]
        @ ([''Literal'', ''String'', ''Single''], [?q] @ ''doc'' @ [?q]) # [([''Text''], [LF])])
        ! (length ?pre2 + 1 + length [([''Text''], '' '')])
      = ([''Literal'', ''String'', ''Single''], [?q] @ ''doc'' @ [?q])"
    using docstring_after_colon [where sty = "[''Literal'', ''String'', ''Single'']"
        and ws = "[([''Text''], '' '')]" and after = True and pre = ?pre2
        and stext = "[?q] @ ''doc'' @ [?q]" and post = "[([''Text''], [LF])]"
        and oty = "[''Operator'']" and otext = "''=''"] h2
    by blast
  have l1: "length ?pre1 + 1 + length ?ws1 = 8" by simp
  have l2: "length ?pre2 + 1 + length [([''Text''], '' '')] = 15" by simp
  have eq2: "?pre2 @ ([''Operator''], ''='') # [([''Text''], '' '')]
        @ ([''Literal'', ''String'', ''Single''], [?q] @ ''doc'' @ [?q]) # [([''Text''], [LF])]
      = ?L" by simp
  note a = a0 [unfolded l1]
  note b = b0 [unfolded l2 eq2]
  have s1: "pythonized_step True ([''Literal'', ''String'', ''Doc''], ''x'') = (True, (Comment, ''x''))"
    using docstring_after_colon [where token_type = "[''Literal'', ''String'', ''Doc'']"
        and token_text = "''x''"] ty
    by blast
  have s2: "pythonized_step False ([''Punctuation''], '':'') = (True, ([''Punctuation''], '':''))"
    using docstring_after_colon [where token_type = "[''Punctuation'']" and after = False]
    by blast
  have s3: "pythonized_step True ([''Operator''], ''='') = (False, ([''Operator''], ''=''))"
    using docstring_after_colon [where token_type = "[''Operator'']" and token_text = "''=''"
        and after = True] ty
    by (simp add: rstrip_def)
  have s4: "pythonized_step False ([''Text''], [LF]) = (False, ([''Text''], [LF]))"
    using docstring_after_colon [where token_type = "[''Text'']" and token_text = "[LF]"
        and after = False] ty
    by (simp add: rstrip_def)
  from a b s1 s2 s3 s4 example_doc show ?thesis
    unfolding toks pythonized_comments_def by blast
qed

section \<open>Properties of the encoding detector\<close>

lemmas bom_defs =
  BOM_TO_ENCODING_MAP_def BOM_UTF8_def BOM_UTF32_LE_def BOM_UTF16_BE_def BOM_UTF16_LE_def
  BOM_UTF32_BE_def

lemma bom_encoding_find:
  "bom_encoding items heading =
     map_option snd (find (\<lambda>item. take (length (fst item)) heading = fst item) items)"
  by (induction items) auto

lemma encoding_for_bom:
  "file_bytes e source_path = Some content \<Longrightarrow> take 128 content \<noteq> [] \<Longrightarrow>
   bom_encoding BOM_TO_ENCODING_MAP (take 128 content) = Some encoding \<Longrightarrow>
   encoding_for e source_path ''automatic'' fallback_encoding = Inr encoding"
  by (simp add: encoding_for_def Let_def)

lemma bom_utf32_le:
  assumes "take 4 content = [CHR 0xFF, CHR 0xFE, CHR 0x00, CHR 0x00]"
  shows "take 128 content \<noteq> []"
    and "bom_encoding BOM_TO_ENCODING_MAP (take 128 content) = Some ''utf-32-le''"
proof -
  have "content = take 4 content @ drop 4 content" by simp
  with assms have c: "content = CHR 0xFF # CHR 0xFE # CHR 0x00 # CHR 0x00 # drop 4 content"
    by simp
  show "take 128 content \<noteq> []" by (subst c) simp
  show "bom_encoding BOM_TO_ENCODING_MAP (take 128 content) = Some ''utf-32-le''"
    by (subst c) (simp add: bom_defs)
qed

text \<open>
  Claim C4.  The signatures are tried in the order of the map, and the first one
  that is a prefix of the heading gives the encoding; in automatic mode that is
  the result for a non-empty heading.  A file that begins with FF FE 00 00
  resolves to utf-32-le and not to utf-16-le.
\<close>

theorem bom_first_match_wins:
  "map snd BOM_TO_ENCODING_MAP
     = [''utf-8-sig'', ''utf-32-le'', ''utf-16-be'', ''utf-16-le'', ''utf-32-be'']
   \<and> bom_encoding items heading =
       map_option snd (find (\<lambda>item. take (length (fst item)) heading = fst item) items)
   \<and> (file_bytes e source_path = Some content \<and> take 128 content \<noteq> []
        \<and> bom_encoding BOM_TO_ENCODING_MAP (take 128 content) = Some encoding \<longrightarrow>
        encoding_for e source_path ''automatic'' fallback_encoding = Inr encoding)
   \<and> (file_bytes e source_path = Some content
        \<and> take 4 content = [CHR 0xFF, CHR 0xFE, CHR 0x00, CHR 0x00] \<longrightarrow>
        encoding_for e source_path ''automatic'' fallback_encoding = Inr ''utf-32-le''
        \<and> encoding_for e source_path ''automatic'' fallback_encoding \<noteq> Inr ''utf-16-le'')"
proof -
  have a: "map snd BOM_TO_ENCODING_MAP
     = [''utf-8-sig'', ''utf-32-le'', ''utf-16-be'', ''utf-16-le'', ''utf-32-be'']"
    by (simp add: BOM_TO_ENCODING_MAP_def)
  have c: "encoding_for e source_path ''automatic'' fallback_encoding = Inr encoding"
    if "file_bytes e source_path = Some content \<and> take 128 content \<noteq> []
        \<and> bom_encoding BOM_TO_ENCODING_MAP (take 128 content) = Some encoding"
    using that encoding_for_bom by blast
  have d: "encoding_for e source_path ''automatic'' fallback_encoding = Inr ''utf-32-le''"
    if h: "file_bytes e source_path = Some content
        \<and> take 4 content = [CHR 0xFF, CHR 0xFE, CHR 0x00, CHR 0x00]"
  proof -
    from h have f: "file_bytes e source_path = Some content"
      and t: "take 4 content = [CHR 0xFF, CHR 0xFE, CHR 0x00, CHR 0x00]" by blast+
    from encoding_for_bom [OF f bom_utf32_le [OF t]] show ?thesis .
  qed
  have e: "encoding_for e source_path ''automatic'' fallback_encoding \<noteq> Inr ''utf-16-le''"
    if h: "file_bytes e source_path = Some content
        \<and> take 4 content = [CHR 0xFF, CHR 0xFE, CHR 0x00, CHR 0x00]"
    using d [OF h] by simp
  from a bom_encoding_find [of items heading] c d e show ?thesis by blast
qed

theorem bom_first_match_wins_witness:
  "encoding_for example_env ''utf32.txt'' ''automatic'' ''cp1252'' = Inr ''utf-32-le''
   \<and> bom_encoding BOM_TO_ENCODING_MAP [CHR 0xFF, CHR 0xFE, CHR ''A'', CHR 0x00]
       = Some ''utf-16-le''
   \<and> encoding_for example_env ''utf16.txt'' ''automatic'' ''cp1252'' = Inr ''utf-16-le''"
proof -
  have a: "encoding_for example_env ''utf32.txt'' ''automatic'' ''cp1252'' = Inr ''utf-32-le''"
    using bom_first_match_wins [where e = example_env and source_path = "''utf32.txt''"
        and content = "[CHR 0xFF, CHR 0xFE, CHR 0x00, CHR 0x00, CHR ''A'', CHR 0x00, CHR 0x00,
                        CHR 0x00]"
        and fallback_encoding = "''cp1252''"]
    by (simp add: example_env_sel)
  have b: "bom_encoding BOM_TO_ENCODING_MAP [CHR 0xFF, CHR 0xFE, CHR ''A'', CHR 0x00]
       = Some ''utf-16-le''"
    by (simp add: bom_defs)
  have c: "encoding_for example_env ''utf16.txt'' ''automatic'' ''cp1252'' = Inr ''utf-16-le''"
    using bom_first_match_wins [where e = example_env and source_path = "''utf16.txt''"
        and content = "[CHR 0xFF, CHR 0xFE, CHR ''A'', CHR 0x00]"
        and encoding = "''utf-16-le''" and fallback_encoding = "''cp1252''"] b
    by (simp add: example_env_sel)
  from a b c show ?thesis by blast
qed

































section \<open>Properties of the configuration\<close>

lemma chardet_message_not_empty: "CHARDET_REQUIRED \<noteq> []"
  by (simp add: CHARDET_REQUIRED_def)

lemma encoding_for_automatic_error:
  "encoding_for e source_path ''automatic'' fallback_encoding = Inl err \<Longrightarrow>
   err = OSError \<or> err = LookupError"
  by (auto simp: encoding_for_def Let_def split: option.splits read_outcome.splits if_splits)

lemma line_parts_error: "line_parts lexer text = Inl err \<Longrightarrow> err = AssertionError []"
  by (auto simp: line_parts_def Let_def white_characters_def white_code_words_def
      split: sum.splits if_splits)

lemma source_analysis_error:
  "source_analysis e source_path grp encoding fallback_encoding = Inl err \<Longrightarrow>
   err = OSError \<or> err = LookupError \<or> err = AssertionError []"
proof (cases "encoding = ''automatic''")
  case True
  assume "source_analysis e source_path grp encoding fallback_encoding = Inl err"
  with True show ?thesis
    by (auto simp: source_analysis_def Let_def
        split: option.splits sum.splits read_outcome.splits
        dest: encoding_for_automatic_error line_parts_error)
next
  case False
  assume "source_analysis e source_path grp encoding fallback_encoding = Inl err"
  with False show ?thesis
    by (auto simp: source_analysis_def Let_def
        split: option.splits sum.splits read_outcome.splits
        dest: line_parts_error)
qed

lemma encoding_for_with_detector:
  "encoding \<noteq> ''chardet'' \<or> detector e \<noteq> None \<Longrightarrow>
   encoding_for e source_path encoding fallback_encoding \<noteq> Inl (AssertionError CHARDET_REQUIRED)"
proof (cases "encoding = ''automatic''")
  case True
  then show ?thesis
    using encoding_for_automatic_error [of e source_path fallback_encoding
        "AssertionError CHARDET_REQUIRED"]
    by auto
next
  case False
  assume "encoding \<noteq> ''chardet'' \<or> detector e \<noteq> None"
  with False show ?thesis
    using chardet_message_not_empty
    by (auto simp: encoding_for_def split: option.splits)
qed

text \<open>
  Claim C6.  Without a detector the configuration step rejects the mode
  \<open>chardet\<close> with a configuration error, and the run analyses no file.  When
  the step accepts a mode, the mode is passed on unchanged, the mode \<open>chardet\<close>
  comes with a detector, and neither \<^verbatim>\<open>encoding_for\<close> nor \<^verbatim>\<open>source_analysis\<close> fails
  on any file with the assertion that guards the detector.
\<close>

theorem chardet_rejected_at_configuration:
  "(\<not> has_chardet e \<longrightarrow>
      configure_encoding e ''chardet'' = Inl ConfigurationError
      \<and> analyze_files e paths grp ''chardet'' fallback_encoding = Inl ConfigurationError)
   \<and> (configure_encoding e encoding = Inr enc \<longrightarrow>
      enc = encoding \<and> (enc = ''chardet'' \<longrightarrow> has_chardet e)
      \<and> encoding_for e source_path enc fallback_encoding
          \<noteq> Inl (AssertionError CHARDET_REQUIRED)
      \<and> source_analysis e source_path grp enc fallback_encoding
          \<noteq> Inl (AssertionError CHARDET_REQUIRED)
      \<and> analyze_files e paths grp encoding fallback_encoding
          = Inr (map (\<lambda>p. source_analysis e p grp enc fallback_encoding) paths))"
proof (intro conjI impI)
  assume "\<not> has_chardet e"
  then show "configure_encoding e ''chardet'' = Inl ConfigurationError"
    and "analyze_files e paths grp ''chardet'' fallback_encoding = Inl ConfigurationError"
    by (simp_all add: configure_encoding_def analyze_files_def)
next
  assume c: "configure_encoding e encoding = Inr enc"
  then show eq: "enc = encoding"
    by (simp add: configure_encoding_def split: if_splits)
  { assume "enc = ''chardet''"
    with c show "has_chardet e" by (simp add: configure_encoding_def split: if_splits) }
  note has = this
  have "enc \<noteq> ''chardet'' \<or> detector e \<noteq> None"
    using has by (auto simp: has_chardet_def)
  then show "encoding_for e source_path enc fallback_encoding
          \<noteq> Inl (AssertionError CHARDET_REQUIRED)"
    by (rule encoding_for_with_detector)
  show "source_analysis e source_path grp enc fallback_encoding
          \<noteq> Inl (AssertionError CHARDET_REQUIRED)"
    using source_analysis_error [of e source_path grp enc fallback_encoding
        "AssertionError CHARDET_REQUIRED"] chardet_message_not_empty
    by auto
  from c show "analyze_files e paths grp encoding fallback_encoding
          = Inr (map (\<lambda>p. source_analysis e p grp enc fallback_encoding) paths)"
    by (simp add: analyze_files_def)
qed

theorem chardet_rejected_at_configuration_witness:
  "configure_encoding example_env ''chardet'' = Inl ConfigurationError
   \<and> analyze_files example_env [''pass.py'', ''doc.py''] ''g'' ''chardet'' ''cp1252''
       = Inl ConfigurationError
   \<and> configure_encoding example_env_chardet ''chardet'' = Inr ''chardet''
   \<and> encoding_for example_env_chardet ''pass.py'' ''chardet'' ''cp1252''
       \<noteq> Inl (AssertionError CHARDET_REQUIRED)
   \<and> encoding_for example_env_chardet ''pass.py'' ''chardet'' ''cp1252'' = Inr ''ascii''"
proof -
  have n: "\<not> has_chardet example_env"
    by (simp add: has_chardet_def example_env_sel)
  have y: "configure_encoding example_env_chardet ''chardet'' = Inr ''chardet''"
    by (simp add: configure_encoding_def has_chardet_def example_env_chardet_def)
  have a: "configure_encoding example_env ''chardet'' = Inl ConfigurationError
      \<and> analyze_files example_env [''pass.py'', ''doc.py''] ''g'' ''chardet'' ''cp1252''
          = Inl ConfigurationError"
    using chardet_rejected_at_configuration [where e = example_env
        and paths = "[''pass.py'', ''doc.py'']" and grp = "''g''"
        and fallback_encoding = "''cp1252''"] n
    by blast
  have b: "encoding_for example_env_chardet ''pass.py'' ''chardet'' ''cp1252''
       \<noteq> Inl (AssertionError CHARDET_REQUIRED)"
    using chardet_rejected_at_configuration [where e = example_env_chardet
        and encoding = "''chardet''" and enc = "''chardet''" and source_path = "''pass.py''"
        and fallback_encoding = "''cp1252''"] y
    by blast
  have c: "encoding_for example_env_chardet ''pass.py'' ''chardet'' ''cp1252'' = Inr ''ascii''"
    by (simp add: encoding_for_def example_env_chardet_def example_env_sel
          example_detector_def)
  from a y b c show ?thesis by blast
qed


end
